theory Spec2Isabelle
  imports Complex_Main
begin

section \<open>JavaScript values\<close>

text \<open>
  A request body is whatever \<^verbatim>\<open>express.json()\<close> parsed, and the validators receive
  it at type \<^verbatim>\<open>any\<close>. \<open>jsval\<close> is the JSON value space together with
  \<^verbatim>\<open>undefined\<close>. A string is the list of its code units (restricted to the 8-bit
  range of \<open>char\<close>), so \<open>length\<close> is JavaScript's \<^verbatim>\<open>.length\<close>. A number is the
  rational it denotes; the code under study only ever asks a number for its truthiness
  and its \<^verbatim>\<open>typeof\<close>. An object is the association list of its own properties.
\<close>

datatype jsval =
    JUndefined
  | JNull
  | JBool bool
  | JNum rat
  | JStr string
  | JArr "jsval list"
  | JObj "(string \<times> jsval) list"

text \<open>\<^verbatim>\<open>!v\<close> is \<open>\<not> truthy v\<close>.\<close>

fun truthy :: "jsval \<Rightarrow> bool" where
  "truthy JUndefined = False"
| "truthy JNull = False"
| "truthy (JBool b) = b"
| "truthy (JNum n) = (n \<noteq> 0)"
| "truthy (JStr s) = (s \<noteq> [])"
| "truthy (JArr xs) = True"
| "truthy (JObj kvs) = True"

fun typeof :: "jsval \<Rightarrow> string" where
  "typeof JUndefined = ''undefined''"
| "typeof JNull = ''object''"
| "typeof (JBool b) = ''boolean''"
| "typeof (JNum n) = ''number''"
| "typeof (JStr s) = ''string''"
| "typeof (JArr xs) = ''object''"
| "typeof (JObj kvs) = ''object''"

section \<open>Thrown values\<close>

text \<open>
  Everything that can be thrown, by class as \<^verbatim>\<open>instanceof\<close> sees it
  (\<^verbatim>\<open>utils/errors.ts\<close>):
  \<^item> \<open>ValidationError errors statusCode\<close>, an instance of \<^verbatim>\<open>ValidationError\<close>;
  \<^item> \<open>AppError name message statusCode\<close>, an instance of \<^verbatim>\<open>AppError\<close> or of one
    of its subclasses;
  \<^item> \<open>Error name message props\<close>, any other instance of \<^verbatim>\<open>Error\<close>, with its further
    own properties;
  \<^item> \<open>Thrown v\<close>, a thrown value that is not an \<^verbatim>\<open>Error\<close> at all.
\<close>

datatype js_error =
    ValidationError "string list" nat
  | AppError string string nat
  | Error string string "(string \<times> jsval) list"
  | Thrown jsval

type_synonym 'a result = "js_error + 'a"

definition new_ValidationError :: "string list \<Rightarrow> js_error" where
  "new_ValidationError errors = ValidationError errors 400"

definition new_Error :: "string \<Rightarrow> js_error" where
  "new_Error message = Error ''Error'' message []"

definition new_TypeError :: "string \<Rightarrow> js_error" where
  "new_TypeError message = Error ''TypeError'' message []"

text \<open>Sequencing of two steps, the first of which may throw.\<close>

definition and_then :: "'e + 'a \<Rightarrow> ('a \<Rightarrow> 'e + 'b) \<Rightarrow> 'e + 'b" where
  "and_then r f = (case r of Inl e \<Rightarrow> Inl e | Inr x \<Rightarrow> f x)"

text \<open>
  \<^verbatim>\<open>v.k\<close> for a property name \<open>k\<close> that no prototype defines (all names read by the
  code under study are such): reading a property of \<^verbatim>\<open>undefined\<close> or \<^verbatim>\<open>null\<close>
  throws a TypeError, a primitive or an array has no such property, an object yields
  its own property or \<^verbatim>\<open>undefined\<close>.
\<close>

fun getp :: "jsval \<Rightarrow> string \<Rightarrow> jsval result" where
  "getp JUndefined k = Inl (new_TypeError ''Cannot read properties of undefined'')"
| "getp JNull k = Inl (new_TypeError ''Cannot read properties of null'')"
| "getp (JObj kvs) k = Inr (case map_of kvs k of None \<Rightarrow> JUndefined | Some v \<Rightarrow> v)"
| "getp v k = Inr JUndefined"

section \<open>Strings\<close>

text \<open>
  The white space and line terminators that \<^verbatim>\<open>String.prototype.trim\<close> removes, as far
  as they lie in the 8-bit range: TAB, LF, VT, FF, CR, SP and NBSP.
\<close>

definition is_js_space :: "char \<Rightarrow> bool" where
  "is_js_space c = ((of_char c :: nat) \<in> {9, 10, 11, 12, 13, 32, 160})"

definition trim :: "string \<Rightarrow> string" where
  "trim s = rev (dropWhile is_js_space (rev (dropWhile is_js_space s)))"

text \<open>\<^verbatim>\<open>v.trim()\<close>: only a string has the method.\<close>

fun js_trim :: "jsval \<Rightarrow> string result" where
  "js_trim (JStr s) = Inr (trim s)"
| "js_trim v = Inl (new_TypeError ''trim is not a function'')"

fun strip_prefix :: "string \<Rightarrow> string \<Rightarrow> string option" where
  "strip_prefix [] s = Some s"
| "strip_prefix (p # ps) [] = None"
| "strip_prefix (p # ps) (c # cs) = (if p = c then strip_prefix ps cs else None)"

text \<open>
  \<^verbatim>\<open>s.replace(/^data:[^;]+;base64,/, '')\<close>. The class \<^verbatim>\<open>[^;]\<close> cannot match the
  semicolon that must follow it, so the only possible match takes the longest run of
  characters other than \<^verbatim>\<open>;\<close> after \<^verbatim>\<open>data:\<close>; the run must not be empty.
\<close>

definition remove_data_url_prefix :: "string \<Rightarrow> string" where
  "remove_data_url_prefix s =
     (case strip_prefix ''data:'' s of
        None \<Rightarrow> s
      | Some r \<Rightarrow>
          (if takeWhile (\<lambda>c. c \<noteq> CHR '';'') r = [] then s
           else (case strip_prefix '';base64,'' (dropWhile (\<lambda>c. c \<noteq> CHR '';'') r) of
                   None \<Rightarrow> s
                 | Some base64Data \<Rightarrow> base64Data)))"

text \<open>\<^verbatim>\<open>v.replace(/^data:[^;]+;base64,/, '')\<close>: only a string has the method.\<close>

fun js_replace_data_url :: "jsval \<Rightarrow> string result" where
  "js_replace_data_url (JStr s) = Inr (remove_data_url_prefix s)"
| "js_replace_data_url v = Inl (new_TypeError ''replace is not a function'')"

text \<open>The character class \<^verbatim>\<open>[A-Za-z0-9+/]\<close>.\<close>

definition base64_class :: "char \<Rightarrow> bool" where
  "base64_class c =
     (let n = (of_char c :: nat)
      in (65 \<le> n \<and> n \<le> 90) \<or> (97 \<le> n \<and> n \<le> 122) \<or> (48 \<le> n \<and> n \<le> 57)
         \<or> c = CHR ''+'' \<or> c = CHR ''/'')"

text \<open>
  \<^verbatim>\<open>/^[A-Za-z0-9+/]*={0,2}$/.test(s)\<close>. The padding sign is not in the class, so the
  star takes exactly the longest run of class characters, and at most two padding signs
  may remain up to the end of the input.
\<close>

definition base64Regex_test :: "string \<Rightarrow> bool" where
  "base64Regex_test s =
     (let rest = dropWhile base64_class s
      in rest = [] \<or> rest = ''='' \<or> rest = ''=='')"

definition digit_char :: "nat \<Rightarrow> char" where
  "digit_char d = ''0123456789'' ! d"

text \<open>The decimal numeral of an array index, as a template literal prints it.\<close>

function show_nat :: "nat \<Rightarrow> string" where
  "show_nat n = (if n < 10 then [digit_char n] else show_nat (n div 10) @ [digit_char (n mod 10)])"
  by pat_completeness auto
termination
  by (relation "measure (\<lambda>n. n)") auto

declare show_nat.simps [simp del]

text \<open>\<^verbatim>\<open>xs.join(sep)\<close> on an array of strings.\<close>

fun join :: "string \<Rightarrow> string list \<Rightarrow> string" where
  "join sep [] = []"
| "join sep [x] = x"
| "join sep (x # y # ys) = x @ sep @ join sep (y # ys)"

section \<open>Validation (\<^verbatim>\<open>utils/validation.ts\<close>)\<close>

text \<open>
  \<^verbatim>\<open>isValidBase64\<close>. The final \<^verbatim>\<open>Buffer.from(base64Data, 'base64')\<close> never throws on
  a string (it skips what it cannot decode), so the \<^verbatim>\<open>try\<close> block always returns
  \<^verbatim>\<open>true\<close>.
\<close>

definition isValidBase64 :: "jsval \<Rightarrow> bool result" where
  "isValidBase64 str =
     (if \<not> truthy str \<or> typeof str \<noteq> ''string'' then Inr False
      else and_then (js_replace_data_url str) (\<lambda>base64Data.
        if \<not> base64Regex_test base64Data then Inr False
        else if length base64Data mod 4 \<noteq> 0 then Inr False
        else Inr True))"

text \<open>
  \<^verbatim>\<open>isValidSvgSize\<close>. \<^verbatim>\<open>(base64Data.length * 3) / 4\<close> is a floating-point division;
  on a length below \<open>2 ^ 51\<close> it is exact, so it is the rational quotient.
\<close>

definition maxSizeInBytes :: rat where
  "maxSizeInBytes = 100 * 1024"

definition isValidSvgSize :: "jsval \<Rightarrow> bool result" where
  "isValidSvgSize base64Svg =
     (if \<not> truthy base64Svg \<or> typeof base64Svg \<noteq> ''string'' then Inr False
      else and_then (js_replace_data_url base64Svg) (\<lambda>base64Data.
        let sizeInBytes = (of_nat (length base64Data) * 3) / (4 :: rat)
        in Inr (sizeInBytes \<le> maxSizeInBytes)))"

record validation =
  isValid :: bool
  errors :: "string list"

definition validTypes :: "string list" where
  "validTypes = [''pawn'', ''rook'', ''knight'', ''bishop'', ''queen'', ''king'']"

definition validColors :: "string list" where
  "validColors = [''white'', ''black'']"

text \<open>\<^verbatim>\<open>xs.includes(v)\<close> on an array of strings: only an equal string is included.\<close>

fun js_includes :: "string list \<Rightarrow> jsval \<Rightarrow> bool" where
  "js_includes xs (JStr s) = (s \<in> set xs)"
| "js_includes xs v = False"

text \<open>The two checks on a base64 field that is known to be a string, in the order the
  source pushes their messages.\<close>

definition base64_field_errors :: "jsval \<Rightarrow> string \<Rightarrow> string \<Rightarrow> string list result" where
  "base64_field_errors v format_msg size_msg =
     and_then (isValidBase64 v) (\<lambda>ok_format.
     and_then (isValidSvgSize v) (\<lambda>ok_size.
       Inr ((if \<not> ok_format then [format_msg] else []) @ (if \<not> ok_size then [size_msg] else []))))"

definition piece_type_errors :: "string \<Rightarrow> jsval \<Rightarrow> string list result" where
  "piece_type_errors prefix piece =
     and_then (getp piece ''type'') (\<lambda>t.
       Inr (if \<not> truthy t \<or> \<not> js_includes validTypes t
            then [prefix @ '' type must be one of: '' @ join '', '' validTypes] else []))"

definition piece_color_errors :: "string \<Rightarrow> jsval \<Rightarrow> string list result" where
  "piece_color_errors prefix piece =
     and_then (getp piece ''color'') (\<lambda>c.
       Inr (if \<not> truthy c \<or> \<not> js_includes validColors c
            then [prefix @ '' color must be one of: '' @ join '', '' validColors] else []))"

definition piece_svgData_errors :: "string \<Rightarrow> jsval \<Rightarrow> string list result" where
  "piece_svgData_errors prefix piece =
     and_then (getp piece ''svgData'') (\<lambda>d.
       if \<not> truthy d \<or> typeof d \<noteq> ''string''
       then Inr [prefix @ '' svgData is required and must be a string'']
       else base64_field_errors d
              (prefix @ '' svgData must be valid base64 format'')
              (prefix @ '' svgData exceeds maximum size limit of 100KB''))"

definition validateChessPiece :: "jsval \<Rightarrow> nat \<Rightarrow> string list result" where
  "validateChessPiece piece index =
     (let prefix = ''Piece at index '' @ show_nat index @ '':''
      in if \<not> truthy piece \<or> typeof piece \<noteq> ''object''
         then Inr [prefix @ '' must be an object'']
         else and_then (piece_type_errors prefix piece) (\<lambda>e1.
              and_then (piece_color_errors prefix piece) (\<lambda>e2.
              and_then (piece_svgData_errors prefix piece) (\<lambda>e3.
                Inr (e1 @ e2 @ e3)))))"

text \<open>\<^verbatim>\<open>pieces.forEach((piece, index) => errors.push(...validateChessPiece(piece, index)))\<close>,
  started at the index of the first element.\<close>

fun validate_each_piece :: "jsval list \<Rightarrow> nat \<Rightarrow> string list result" where
  "validate_each_piece [] index = Inr []"
| "validate_each_piece (piece # rest) index =
     and_then (validateChessPiece piece index) (\<lambda>pieceErrors.
     and_then (validate_each_piece rest (Suc index)) (\<lambda>more.
       Inr (pieceErrors @ more)))"

text \<open>The blocks of \<^verbatim>\<open>validateCreateCustomization\<close>, each returning what it pushes.\<close>

definition create_name_errors :: "jsval \<Rightarrow> string list result" where
  "create_name_errors data =
     and_then (getp data ''name'') (\<lambda>n.
       if \<not> truthy n \<or> typeof n \<noteq> ''string''
       then Inr [''Name is required and must be a non-empty string'']
       else and_then (js_trim n) (\<lambda>t.
         Inr (if length t = 0 then [''Name is required and must be a non-empty string'']
              else [])))"

definition create_pieces_errors :: "jsval \<Rightarrow> string list result" where
  "create_pieces_errors data =
     and_then (getp data ''pieces'') (\<lambda>p.
       case p of
         JArr ps \<Rightarrow>
           (if length ps = 0 then Inr [''At least one chess piece is required'']
            else validate_each_piece ps 0)
       | _ \<Rightarrow> Inr [''Pieces must be an array''])"

definition description_errors :: "jsval \<Rightarrow> string list result" where
  "description_errors data =
     and_then (getp data ''description'') (\<lambda>d.
       Inr (if d \<noteq> JUndefined \<and> typeof d \<noteq> ''string''
            then [''Description must be a string if provided''] else []))"

definition boardSvg_errors :: "jsval \<Rightarrow> string list result" where
  "boardSvg_errors data =
     and_then (getp data ''boardSvg'') (\<lambda>b.
       if b \<noteq> JUndefined then
         (if typeof b \<noteq> ''string'' then Inr [''Board SVG must be a string if provided'']
          else base64_field_errors b
                 ''Board SVG must be valid base64 format''
                 ''Board SVG exceeds maximum size limit of 100KB'')
       else Inr [])"

definition validateCreateCustomization :: "jsval \<Rightarrow> validation result" where
  "validateCreateCustomization data =
     (if \<not> truthy data \<or> typeof data \<noteq> ''object''
      then Inr \<lparr>isValid = False, errors = [''Request body is required'']\<rparr>
      else and_then (create_name_errors data) (\<lambda>e1.
           and_then (create_pieces_errors data) (\<lambda>e2.
           and_then (description_errors data) (\<lambda>e3.
           and_then (boardSvg_errors data) (\<lambda>e4.
             let errors = e1 @ e2 @ e3 @ e4
             in Inr \<lparr>isValid = (length errors = 0), errors = errors\<rparr>)))))"

text \<open>The blocks of \<^verbatim>\<open>validateUpdateCustomization\<close> that differ from those of create.\<close>

definition hasValidField :: "jsval \<Rightarrow> bool result" where
  "hasValidField data =
     and_then (getp data ''name'') (\<lambda>n.
       if n \<noteq> JUndefined then Inr True
       else and_then (getp data ''description'') (\<lambda>d.
         if d \<noteq> JUndefined then Inr True
         else and_then (getp data ''boardSvg'') (\<lambda>b.
           if b \<noteq> JUndefined then Inr True
           else and_then (getp data ''pieces'') (\<lambda>p. Inr (p \<noteq> JUndefined)))))"

definition no_field_errors :: "jsval \<Rightarrow> string list result" where
  "no_field_errors data =
     and_then (hasValidField data) (\<lambda>has.
       Inr (if \<not> has
            then [''At least one field (name, description, boardSvg, or pieces) must be provided for update'']
            else []))"

definition update_name_errors :: "jsval \<Rightarrow> string list result" where
  "update_name_errors data =
     and_then (getp data ''name'') (\<lambda>n.
       if n \<noteq> JUndefined then
         (if typeof n \<noteq> ''string'' then Inr [''Name must be a non-empty string if provided'']
          else and_then (js_trim n) (\<lambda>t.
            Inr (if length t = 0 then [''Name must be a non-empty string if provided'']
                 else [])))
       else Inr [])"

definition update_pieces_errors :: "jsval \<Rightarrow> string list result" where
  "update_pieces_errors data =
     and_then (getp data ''pieces'') (\<lambda>p.
       if p \<noteq> JUndefined then
         (case p of
            JArr ps \<Rightarrow>
              (if length ps = 0
               then Inr [''At least one chess piece is required if pieces array is provided'']
               else validate_each_piece ps 0)
          | _ \<Rightarrow> Inr [''Pieces must be an array if provided''])
       else Inr [])"

definition validateUpdateCustomization :: "jsval \<Rightarrow> validation result" where
  "validateUpdateCustomization data =
     (if \<not> truthy data \<or> typeof data \<noteq> ''object''
      then Inr \<lparr>isValid = False, errors = [''Request body is required'']\<rparr>
      else and_then (no_field_errors data) (\<lambda>e0.
           and_then (update_name_errors data) (\<lambda>e1.
           and_then (description_errors data) (\<lambda>e2.
           and_then (boardSvg_errors data) (\<lambda>e3.
           and_then (update_pieces_errors data) (\<lambda>e4.
             let errors = e0 @ e1 @ e2 @ e3 @ e4
             in Inr \<lparr>isValid = (length errors = 0), errors = errors\<rparr>))))))"

section \<open>Models (\<^verbatim>\<open>models/ChessCustomization.ts\<close>)\<close>

text \<open>
  The interfaces of the model layer. An optional field of a request is an \<open>option\<close>:
  \<open>None\<close> is the absent field (\<^verbatim>\<open>undefined\<close>). A value that comes from a column of
  the store is a \<open>nullable\<close>: \<open>Null\<close> is \<^verbatim>\<open>null\<close>, which is not \<^verbatim>\<open>undefined\<close>. The
  fields of the create request carry the prefix \<open>req_\<close>, those of the update request
  the prefix \<open>upd_\<close>; the \<^verbatim>\<open>id\<close> of a \<^verbatim>\<open>ChessCustomization\<close> is \<open>id'\<close>, and a
  \<^verbatim>\<open>Date\<close> is its time value.
\<close>

datatype 'a nullable = Null | Value 'a

record ChessPiece =
  type :: string
  color :: string
  svgData :: string

record ChessCustomization =
  id' :: string
  name :: string
  description :: "string nullable"
  boardSvg :: "string nullable"
  pieces :: "ChessPiece list"
  createdAt :: nat
  updatedAt :: nat

record CreateChessCustomizationRequest =
  req_name :: string
  req_description :: "string option"
  req_boardSvg :: "string option"
  req_pieces :: "ChessPiece list"

record UpdateChessCustomizationRequest =
  upd_name :: "string option"
  upd_description :: "string option"
  upd_boardSvg :: "string option"
  upd_pieces :: "ChessPiece list option"

text \<open>
  The controllers hand the validated body to the storage under a type annotation
  (\<^verbatim>\<open>const createData: CreateChessCustomizationRequest = req.body\<close>), which does nothing
  at run time. The functions below read a body at the annotated type.
\<close>

definition field :: "jsval \<Rightarrow> string \<Rightarrow> jsval" where
  "field v k = (case getp v k of Inl e \<Rightarrow> JUndefined | Inr x \<Rightarrow> x)"

fun as_string :: "jsval \<Rightarrow> string" where
  "as_string (JStr s) = s"
| "as_string v = []"

fun as_optional_string :: "jsval \<Rightarrow> string option" where
  "as_optional_string (JStr s) = Some s"
| "as_optional_string v = None"

definition as_piece :: "jsval \<Rightarrow> ChessPiece" where
  "as_piece piece =
     \<lparr>type = as_string (field piece ''type''),
      color = as_string (field piece ''color''),
      svgData = as_string (field piece ''svgData'')\<rparr>"

fun as_optional_pieces :: "jsval \<Rightarrow> ChessPiece list option" where
  "as_optional_pieces (JArr ps) = Some (map as_piece ps)"
| "as_optional_pieces v = None"

definition as_create_request :: "jsval \<Rightarrow> CreateChessCustomizationRequest" where
  "as_create_request body =
     \<lparr>req_name = as_string (field body ''name''),
      req_description = as_optional_string (field body ''description''),
      req_boardSvg = as_optional_string (field body ''boardSvg''),
      req_pieces =
        (case as_optional_pieces (field body ''pieces'') of None \<Rightarrow> [] | Some ps \<Rightarrow> ps)\<rparr>"

definition as_update_request :: "jsval \<Rightarrow> UpdateChessCustomizationRequest" where
  "as_update_request body =
     \<lparr>upd_name = as_optional_string (field body ''name''),
      upd_description = as_optional_string (field body ''description''),
      upd_boardSvg = as_optional_string (field body ''boardSvg''),
      upd_pieces = as_optional_pieces (field body ''pieces'')\<rparr>"

section \<open>The relational store (\<^verbatim>\<open>database/schema.sql\<close>)\<close>

text \<open>
  The two tables of the schema, and the statements the storage class sends, with the
  meaning the schema gives them: primary keys, the foreign key with its cascade, the
  serial column, the column defaults, the length of the \<^verbatim>\<open>VARCHAR\<close> columns, the
  \<^verbatim>\<open>CHECK\<close> constraints and the trigger on \<^verbatim>\<open>updated_at\<close>. The values of
  \<^verbatim>\<open>uuid_generate_v4()\<close> and \<^verbatim>\<open>NOW()\<close> are parameters. \<open>connected\<close> says whether
  the store answers; when it does not, every statement fails. A text parameter that
  holds the character with code 0 is refused, and the sequence of the serial column
  issues no value above 2147483647. That a rolled-back transaction does not give back
  the values it took from the sequence is outside this model.
\<close>

record customizations_row =
  c_id :: string
  c_name :: string
  c_description :: "string nullable"
  c_board_svg :: "string nullable"
  c_created_at :: nat
  c_updated_at :: nat

record chess_pieces_row =
  cp_id :: nat
  cp_customization_id :: string
  cp_type :: string
  cp_color :: string
  cp_svg_data :: string

record database =
  customizations :: "customizations_row list"
  chess_pieces :: "chess_pieces_row list"
  chess_pieces_id_seq :: nat
  connected :: bool

datatype sql_error =
    Connection_failure
  | String_data_right_truncation
  | Unique_violation
  | Check_violation
  | Foreign_key_violation
  | Character_not_in_repertoire
  | Sequence_generator_limit_exceeded

fun sql_message :: "sql_error \<Rightarrow> string" where
  "sql_message Connection_failure = ''connection failure''"
| "sql_message String_data_right_truncation = ''value too long for type character varying''"
| "sql_message Unique_violation = ''duplicate key value violates unique constraint''"
| "sql_message Check_violation = ''new row violates check constraint''"
| "sql_message Foreign_key_violation = ''insert violates foreign key constraint''"
| "sql_message Character_not_in_repertoire = ''invalid byte sequence for encoding UTF8: 0x00''"
| "sql_message Sequence_generator_limit_exceeded = ''nextval: reached maximum value of sequence''"

text \<open>A text parameter as the store reads it: the character with code 0 cannot be part
  of a text value.\<close>

definition text_in :: "string \<Rightarrow> sql_error + string" where
  "text_in s = (if CHR 0x00 \<in> set s then Inl Character_not_in_repertoire else Inr s)"

fun nullable_text_in :: "string nullable \<Rightarrow> sql_error + string nullable" where
  "nullable_text_in Null = Inr Null"
| "nullable_text_in (Value s) = and_then (text_in s) (\<lambda>t. Inr (Value t))"

text \<open>The largest value of the sequence behind a \<^verbatim>\<open>SERIAL\<close> column.\<close>

definition serial_max :: nat where
  "serial_max = 2147483647"

text \<open>Assignment to a \<^verbatim>\<open>VARCHAR(n)\<close> column: a longer value is an error unless only
  spaces are cut off.\<close>

definition varchar :: "nat \<Rightarrow> string \<Rightarrow> sql_error + string" where
  "varchar n s =
     (if length s \<le> n then Inr s
      else if set (drop n s) \<subseteq> {CHR '' ''} then Inr (take n s)
      else Inl String_data_right_truncation)"

text \<open>The text of a \<^verbatim>\<open>uuid\<close> parameter read into the column type: the store compares
  and prints identifiers in lower case.\<close>

definition hex_lower :: "char \<Rightarrow> char" where
  "hex_lower c =
     (if c = CHR ''A'' then CHR ''a'' else if c = CHR ''B'' then CHR ''b''
      else if c = CHR ''C'' then CHR ''c'' else if c = CHR ''D'' then CHR ''d''
      else if c = CHR ''E'' then CHR ''e'' else if c = CHR ''F'' then CHR ''f'' else c)"

definition uuid_in :: "string \<Rightarrow> string" where
  "uuid_in s = map hex_lower s"

text \<open>\<^verbatim>\<open>INSERT INTO customizations (name, description, board_svg) VALUES ($1, $2, $3)
  RETURNING id, name, description, board_svg, created_at, updated_at\<close>\<close>

definition insert_customization ::
    "database \<Rightarrow> string \<Rightarrow> nat \<Rightarrow> string \<Rightarrow> string nullable \<Rightarrow> string nullable
     \<Rightarrow> sql_error + (customizations_row \<times> database)" where
  "insert_customization db generated now p1 p2 p3 =
     (if \<not> connected db then Inl Connection_failure
      else and_then (text_in p1) (\<lambda>v1.
           and_then (nullable_text_in p2) (\<lambda>v2.
           and_then (nullable_text_in p3) (\<lambda>v3.
           and_then (varchar 255 v1) (\<lambda>n.
        if generated \<in> set (map c_id (customizations db)) then Inl Unique_violation
        else
          (let row = \<lparr>c_id = generated, c_name = n, c_description = v2, c_board_svg = v3,
                      c_created_at = now, c_updated_at = now\<rparr>
           in Inr (row, db\<lparr>customizations := customizations db @ [row]\<rparr>)))))))"

text \<open>\<^verbatim>\<open>INSERT INTO chess_pieces (customization_id, type, color, svg_data)
  VALUES ($1, $2, $3, $4)\<close>\<close>

definition insert_chess_piece ::
    "database \<Rightarrow> string \<Rightarrow> string \<Rightarrow> string \<Rightarrow> string \<Rightarrow> sql_error + database" where
  "insert_chess_piece db p1 p2 p3 p4 =
     (if \<not> connected db then Inl Connection_failure
      else and_then (text_in p2) (\<lambda>v2.
           and_then (text_in p3) (\<lambda>v3.
           and_then (text_in p4) (\<lambda>v4.
        if serial_max < chess_pieces_id_seq db then Inl Sequence_generator_limit_exceeded
        else and_then (varchar 10 v2) (\<lambda>t.
             and_then (varchar 5 v3) (\<lambda>c.
        if t \<notin> set [''pawn'', ''rook'', ''knight'', ''bishop'', ''queen'', ''king'']
        then Inl Check_violation
        else if c \<notin> set [''white'', ''black''] then Inl Check_violation
        else if chess_pieces_id_seq db \<in> set (map cp_id (chess_pieces db))
        then Inl Unique_violation
        else if uuid_in p1 \<notin> set (map c_id (customizations db))
        then Inl Foreign_key_violation
        else
          (let row = \<lparr>cp_id = chess_pieces_id_seq db, cp_customization_id = uuid_in p1,
                      cp_type = t, cp_color = c, cp_svg_data = v4\<rparr>
           in Inr (db\<lparr>chess_pieces := chess_pieces db @ [row],
                      chess_pieces_id_seq := Suc (chess_pieces_id_seq db)\<rparr>))))))))"

text \<open>The rows of the query of \<^verbatim>\<open>getById\<close>, as the driver returns them.\<close>

record joined_row =
  row_id :: string
  row_name :: string
  row_description :: "string nullable"
  row_board_svg :: "string nullable"
  row_created_at :: nat
  row_updated_at :: nat
  row_type :: "string nullable"
  row_color :: "string nullable"
  row_svg_data :: "string nullable"

text \<open>A column of the right-hand table in a left join: null where no row was joined.\<close>

fun joined_column :: "(chess_pieces_row \<Rightarrow> 'a) \<Rightarrow> chess_pieces_row option \<Rightarrow> 'a nullable" where
  "joined_column col None = Null"
| "joined_column col (Some cp) = Value (col cp)"

definition joined :: "customizations_row \<Rightarrow> chess_pieces_row option \<Rightarrow> joined_row" where
  "joined c cp =
     \<lparr>row_id = c_id c, row_name = c_name c, row_description = c_description c,
      row_board_svg = c_board_svg c, row_created_at = c_created_at c,
      row_updated_at = c_updated_at c,
      row_type = joined_column cp_type cp, row_color = joined_column cp_color cp,
      row_svg_data = joined_column cp_svg_data cp\<rparr>"

text \<open>One row of \<^verbatim>\<open>customizations\<close> left-joined with its pieces in the order of
  \<^verbatim>\<open>cp.id\<close>: without pieces it yields one row whose piece columns are null.\<close>

definition left_join_pieces :: "database \<Rightarrow> customizations_row \<Rightarrow> joined_row list" where
  "left_join_pieces db c =
     (let cps = sort_key cp_id (filter (\<lambda>cp. cp_customization_id cp = c_id c) (chess_pieces db))
      in if cps = [] then [joined c None] else map (\<lambda>cp. joined c (Some cp)) cps)"

text \<open>\<^verbatim>\<open>SELECT c.id, c.name, c.description, c.board_svg, c.created_at, c.updated_at,
  cp.type, cp.color, cp.svg_data FROM customizations c
  LEFT JOIN chess_pieces cp ON c.id = cp.customization_id WHERE c.id = $1 ORDER BY cp.id\<close>.
  The primary key leaves at most one row of \<^verbatim>\<open>customizations\<close>, so the order of the
  result is the order of its pieces.\<close>

definition select_customization_with_pieces ::
    "database \<Rightarrow> string \<Rightarrow> sql_error + joined_row list" where
  "select_customization_with_pieces db p1 =
     (if \<not> connected db then Inl Connection_failure
      else Inr (concat (map (left_join_pieces db)
                  (filter (\<lambda>c. c_id c = uuid_in p1) (customizations db)))))"

text \<open>\<^verbatim>\<open>SELECT id FROM customizations WHERE id = $1\<close> and
  \<^verbatim>\<open>SELECT 1 FROM customizations WHERE id = $1\<close>: the matching rows.\<close>

definition select_customization :: "database \<Rightarrow> string \<Rightarrow> sql_error + customizations_row list" where
  "select_customization db p1 =
     (if \<not> connected db then Inl Connection_failure
      else Inr (filter (\<lambda>c. c_id c = uuid_in p1) (customizations db)))"

text \<open>The dynamic \<^verbatim>\<open>SET\<close> list of \<^verbatim>\<open>update\<close>: each entry is a column with its
  parameter.\<close>

datatype assignment = Set_name string | Set_description string | Set_board_svg string

fun assign :: "customizations_row \<Rightarrow> assignment \<Rightarrow> sql_error + customizations_row" where
  "assign row (Set_name v) =
     and_then (text_in v) (\<lambda>t. and_then (varchar 255 t) (\<lambda>n. Inr (row\<lparr>c_name := n\<rparr>)))"
| "assign row (Set_description v) =
     and_then (text_in v) (\<lambda>t. Inr (row\<lparr>c_description := Value t\<rparr>))"
| "assign row (Set_board_svg v) =
     and_then (text_in v) (\<lambda>t. Inr (row\<lparr>c_board_svg := Value t\<rparr>))"

fun assign_all :: "customizations_row \<Rightarrow> assignment list \<Rightarrow> sql_error + customizations_row" where
  "assign_all row [] = Inr row"
| "assign_all row (a # as) = and_then (assign row a) (\<lambda>row'. assign_all row' as)"

fun update_where ::
    "customizations_row list \<Rightarrow> string \<Rightarrow> assignment list \<Rightarrow> nat
     \<Rightarrow> sql_error + customizations_row list" where
  "update_where [] key sets now = Inr []"
| "update_where (row # rows) key sets now =
     (if c_id row = key
      then and_then (assign_all row sets) (\<lambda>row'.
           and_then (update_where rows key sets now) (\<lambda>rows'.
             Inr (row'\<lparr>c_updated_at := now\<rparr> # rows')))
      else and_then (update_where rows key sets now) (\<lambda>rows'. Inr (row # rows')))"

text \<open>\<^verbatim>\<open>UPDATE customizations SET ... WHERE id = $n\<close>, with the trigger that sets
  \<^verbatim>\<open>updated_at\<close> of every updated row.\<close>

definition update_customizations ::
    "database \<Rightarrow> nat \<Rightarrow> assignment list \<Rightarrow> string \<Rightarrow> sql_error + database" where
  "update_customizations db now sets pn =
     (if \<not> connected db then Inl Connection_failure
      else and_then (update_where (customizations db) (uuid_in pn) sets now) (\<lambda>rows.
        Inr (db\<lparr>customizations := rows\<rparr>)))"

text \<open>\<^verbatim>\<open>DELETE FROM chess_pieces WHERE customization_id = $1\<close>\<close>

definition delete_chess_pieces :: "database \<Rightarrow> string \<Rightarrow> sql_error + database" where
  "delete_chess_pieces db p1 =
     (if \<not> connected db then Inl Connection_failure
      else Inr (db\<lparr>chess_pieces :=
                  filter (\<lambda>cp. cp_customization_id cp \<noteq> uuid_in p1) (chess_pieces db)\<rparr>))"

text \<open>\<^verbatim>\<open>DELETE FROM customizations WHERE id = $1\<close>, cascading to the pieces; the
  number is the statement's \<^verbatim>\<open>rowCount\<close>.\<close>

definition delete_customization :: "database \<Rightarrow> string \<Rightarrow> sql_error + (nat \<times> database)" where
  "delete_customization db p1 =
     (if \<not> connected db then Inl Connection_failure
      else Inr (length (filter (\<lambda>c. c_id c = uuid_in p1) (customizations db)),
                db\<lparr>customizations := filter (\<lambda>c. c_id c \<noteq> uuid_in p1) (customizations db),
                   chess_pieces :=
                     filter (\<lambda>cp. cp_customization_id cp \<noteq> uuid_in p1) (chess_pieces db)\<rparr>))"

section \<open>The storage class (\<^verbatim>\<open>storage/PostgreSQLChessCustomizationStorage.ts\<close>)\<close>

text \<open>A failed statement rejects with the driver's error, an \<^verbatim>\<open>Error\<close> carrying the
  store's message.\<close>

definition pg_error :: "sql_error \<Rightarrow> js_error" where
  "pg_error e = Error ''error'' (sql_message e) []"

definition query :: "sql_error + 'a \<Rightarrow> 'a result" where
  "query r = (case r of Inl e \<Rightarrow> Inl (pg_error e) | Inr x \<Rightarrow> Inr x)"

text \<open>\<^verbatim>\<open>error instanceof Error ? error.message : 'Unknown error'\<close>\<close>

fun error_message :: "js_error \<Rightarrow> string" where
  "error_message (ValidationError es st) = ''Validation failed: '' @ join '', '' es"
| "error_message (AppError n m st) = m"
| "error_message (Error n m props) = m"
| "error_message (Thrown v) = ''Unknown error''"

text \<open>The \<^verbatim>\<open>catch\<close> block of every method: whatever the \<^verbatim>\<open>try\<close> block threw is
  replaced by a new \<^verbatim>\<open>Error\<close> that names the operation. A rolled-back transaction
  leaves the tables as they were, so a thrown error carries no state.\<close>

definition rethrow :: "string \<Rightarrow> 'a result \<Rightarrow> 'a result" where
  "rethrow what r =
     (case r of Inl e \<Rightarrow> Inl (new_Error (what @ '': '' @ error_message e)) | Inr x \<Rightarrow> Inr x)"

text \<open>
  \<^verbatim>\<open>/^[0-9a-f]{8}-[0-9a-f]{4}-[1-5][0-9a-f]{3}-[89ab][0-9a-f]{3}-[0-9a-f]{12}$/i\<close>:
  a sequence of 36 character classes, each read without regard to case.
\<close>

datatype uuid_class = Hex | Hyphen | Version | Variant

fun in_class :: "uuid_class \<Rightarrow> char \<Rightarrow> bool" where
  "in_class Hex c = (c \<in> set ''0123456789abcdefABCDEF'')"
| "in_class Hyphen c = (c = CHR ''-'')"
| "in_class Version c = (c \<in> set ''12345'')"
| "in_class Variant c = (c \<in> set ''89abAB'')"

definition uuidRegex :: "uuid_class list" where
  "uuidRegex =
     replicate 8 Hex @ [Hyphen] @ replicate 4 Hex @ [Hyphen] @ [Version] @ replicate 3 Hex
     @ [Hyphen] @ [Variant] @ replicate 3 Hex @ [Hyphen] @ replicate 12 Hex"

definition isValidUUID :: "string \<Rightarrow> bool" where
  "isValidUUID uuid = list_all2 in_class uuidRegex uuid"

text \<open>\<^verbatim>\<open>v || null\<close> on an optional string: \<^verbatim>\<open>undefined\<close> and the empty string are
  falsy.\<close>

fun or_null :: "string option \<Rightarrow> string nullable" where
  "or_null None = Null"
| "or_null (Some s) = (if s = [] then Null else Value s)"

text \<open>The loop of \<^verbatim>\<open>create\<close>, which collects the pieces it has inserted.\<close>

fun insert_pieces ::
    "database \<Rightarrow> string \<Rightarrow> ChessPiece list \<Rightarrow> ChessPiece list
     \<Rightarrow> (ChessPiece list \<times> database) result" where
  "insert_pieces db customizationId [] collected = Inr (collected, db)"
| "insert_pieces db customizationId (piece # rest) collected =
     and_then (query (insert_chess_piece db customizationId (type piece) (color piece) (svgData piece)))
       (\<lambda>db'. insert_pieces db' customizationId rest (collected @ [piece]))"

text \<open>\<^verbatim>\<open>create\<close>. The connection is taken before the \<^verbatim>\<open>try\<close> block.\<close>

definition create ::
    "database \<Rightarrow> string \<Rightarrow> nat \<Rightarrow> CreateChessCustomizationRequest
     \<Rightarrow> (ChessCustomization \<times> database) result" where
  "create db generated now data =
     (if \<not> connected db then Inl (pg_error Connection_failure)
      else rethrow ''Failed to create chess customization''
        (and_then (query (insert_customization db generated now
                            (req_name data) (or_null (req_description data))
                            (or_null (req_boardSvg data))))
           (\<lambda>(customizationRow, db1).
         and_then (insert_pieces db1 (c_id customizationRow) (req_pieces data) [])
           (\<lambda>(collected, db2).
             Inr (\<lparr>id' = c_id customizationRow,
                   name = c_name customizationRow,
                   description = c_description customizationRow,
                   boardSvg = c_board_svg customizationRow,
                   pieces = collected,
                   createdAt = c_created_at customizationRow,
                   updatedAt = c_updated_at customizationRow\<rparr>, db2)))))"

text \<open>\<^verbatim>\<open>transformRowsToCustomizations\<close>. The \<^verbatim>\<open>Map\<close> keeps its keys in the order of
  their first insertion: an association list that is extended at its end.\<close>

definition map_has :: "(string \<times> ChessCustomization) list \<Rightarrow> string \<Rightarrow> bool" where
  "map_has m k = (k \<in> set (map fst m))"

definition map_set ::
    "(string \<times> ChessCustomization) list \<Rightarrow> string \<Rightarrow> ChessCustomization
     \<Rightarrow> (string \<times> ChessCustomization) list" where
  "map_set m k v =
     (if map_has m k then map (\<lambda>(k', v'). if k' = k then (k', v) else (k', v')) m
      else m @ [(k, v)])"

text \<open>\<^verbatim>\<open>customizationMap.get(k)!.pieces.push(piece)\<close>\<close>

definition map_push_piece ::
    "(string \<times> ChessCustomization) list \<Rightarrow> string \<Rightarrow> ChessPiece
     \<Rightarrow> (string \<times> ChessCustomization) list" where
  "map_push_piece m k piece =
     map (\<lambda>(k', v'). if k' = k then (k', v'\<lparr>pieces := pieces v' @ [piece]\<rparr>) else (k', v')) m"

definition transform_row ::
    "(string \<times> ChessCustomization) list \<Rightarrow> joined_row \<Rightarrow> (string \<times> ChessCustomization) list" where
  "transform_row customizationMap row =
     (let customizationId = row_id row;
          m = (if \<not> map_has customizationMap customizationId
               then map_set customizationMap customizationId
                      \<lparr>id' = row_id row, name = row_name row,
                       description = row_description row,
                       boardSvg = row_board_svg row, pieces = [],
                       createdAt = row_created_at row,
                       updatedAt = row_updated_at row\<rparr>
               else customizationMap)
      in case (row_type row, row_color row, row_svg_data row) of
           (Value t, Value c, Value d) \<Rightarrow>
             (if t \<noteq> [] \<and> c \<noteq> [] \<and> d \<noteq> []
              then map_push_piece m customizationId \<lparr>type = t, color = c, svgData = d\<rparr>
              else m)
         | _ \<Rightarrow> m)"

definition transformRowsToCustomizations :: "joined_row list \<Rightarrow> ChessCustomization list" where
  "transformRowsToCustomizations rows = map snd (foldl transform_row [] rows)"

text \<open>\<^verbatim>\<open>getById\<close>; \<open>None\<close> is \<^verbatim>\<open>undefined\<close>.\<close>

definition getById :: "database \<Rightarrow> string \<Rightarrow> ChessCustomization option result" where
  "getById db ident =
     rethrow ''Failed to get chess customization''
       (if \<not> isValidUUID ident then Inr None
        else and_then (query (select_customization_with_pieces db ident)) (\<lambda>rows.
          if length rows = 0 then Inr None
          else (case transformRowsToCustomizations rows of
                  [] \<Rightarrow> Inr None
                | c # cs \<Rightarrow> Inr (Some c))))"

text \<open>The \<^verbatim>\<open>SET\<close> list that \<^verbatim>\<open>update\<close> builds from the fields supplied.\<close>

definition updateFields :: "UpdateChessCustomizationRequest \<Rightarrow> assignment list" where
  "updateFields data =
     (case upd_name data of None \<Rightarrow> [] | Some v \<Rightarrow> [Set_name v])
     @ (case upd_description data of None \<Rightarrow> [] | Some v \<Rightarrow> [Set_description v])
     @ (case upd_boardSvg data of None \<Rightarrow> [] | Some v \<Rightarrow> [Set_board_svg v])"

text \<open>The loop of \<^verbatim>\<open>update\<close> over the new pieces.\<close>

fun insert_each :: "database \<Rightarrow> string \<Rightarrow> ChessPiece list \<Rightarrow> database result" where
  "insert_each db ident [] = Inr db"
| "insert_each db ident (piece # rest) =
     and_then (query (insert_chess_piece db ident (type piece) (color piece) (svgData piece)))
       (\<lambda>db'. insert_each db' ident rest)"

text \<open>\<^verbatim>\<open>update\<close>. The format check precedes the connection; the connection is taken
  before the \<^verbatim>\<open>try\<close> block; the re-read by \<^verbatim>\<open>getById\<close> is inside it.\<close>

definition update ::
    "database \<Rightarrow> nat \<Rightarrow> string \<Rightarrow> UpdateChessCustomizationRequest
     \<Rightarrow> (ChessCustomization option \<times> database) result" where
  "update db now ident data =
     (if \<not> isValidUUID ident then Inr (None, db)
      else if \<not> connected db then Inl (pg_error Connection_failure)
      else rethrow ''Failed to update chess customization''
        (and_then (query (select_customization db ident)) (\<lambda>existsResult.
           if length existsResult = 0 then Inr (None, db)
           else
             and_then (if length (updateFields data) > 0
                       then query (update_customizations db now (updateFields data) ident)
                       else Inr db) (\<lambda>db1.
             and_then (case upd_pieces data of
                         None \<Rightarrow> Inr db1
                       | Some ps \<Rightarrow>
                           and_then (query (delete_chess_pieces db1 ident)) (\<lambda>db2.
                             insert_each db2 ident ps)) (\<lambda>db3.
             and_then (getById db3 ident) (\<lambda>c. Inr (c, db3)))))))"

text \<open>\<^verbatim>\<open>delete\<close> and \<^verbatim>\<open>exists\<close>\<close>

definition delete :: "database \<Rightarrow> string \<Rightarrow> (bool \<times> database) result" where
  "delete db ident =
     rethrow ''Failed to delete chess customization''
       (if \<not> isValidUUID ident then Inr (False, db)
        else and_then (query (delete_customization db ident)) (\<lambda>(rowCount, db').
          Inr (rowCount > 0, db')))"

definition exists :: "database \<Rightarrow> string \<Rightarrow> bool result" where
  "exists db ident =
     rethrow ''Failed to check chess customization existence''
       (if \<not> isValidUUID ident then Inr False
        else and_then (query (select_customization db ident)) (\<lambda>rows.
          Inr (length rows > 0)))"

section \<open>The error handler (\<^verbatim>\<open>middleware/errorHandler.ts\<close>)\<close>

record ApiErrorResponse =
  success :: bool
  error :: string
  message :: string
  details :: "string list option"

text \<open>What a handler sends: an error envelope, a success envelope (whose
  \<^verbatim>\<open>success\<close> is \<^verbatim>\<open>true\<close>) with its data and message, or nothing.\<close>

datatype sent =
    Json_error ApiErrorResponse
  | Json_success ChessCustomization string
  | Nothing

record response =
  status :: nat
  sent :: sent

text \<open>\<^verbatim>\<open>k in v\<close> for a property name that no prototype defines: a primitive on the
  right throws a TypeError.\<close>

fun js_in :: "string \<Rightarrow> jsval \<Rightarrow> bool result" where
  "js_in k (JObj kvs) = Inr (k \<in> set (map fst kvs))"
| "js_in k (JArr xs) = Inr False"
| "js_in k v = Inl (new_TypeError ''Cannot use in operator'')"

definition invalid_json_response :: response where
  "invalid_json_response =
     \<lparr>status = 400,
      sent = Json_error \<lparr>success = False, error = ''Invalid JSON'',
                         message = ''Request body contains invalid JSON'', details = None\<rparr>\<rparr>"

definition generic_error_response :: response where
  "generic_error_response =
     \<lparr>status = 500,
      sent = Json_error \<lparr>success = False, error = ''Internal server error'',
                         message = ''An unexpected error occurred'', details = None\<rparr>\<rparr>"

text \<open>\<^verbatim>\<open>errorHandler\<close>. The two \<^verbatim>\<open>instanceof\<close> tests come first; the third test
  reads \<^verbatim>\<open>error.name\<close> and, only if that is \<^verbatim>\<open>'SyntaxError'\<close>, evaluates
  \<^verbatim>\<open>'body' in error\<close>. The result is \<open>Inl\<close> when the handler itself throws.\<close>

fun errorHandler :: "js_error \<Rightarrow> response result" where
  "errorHandler (ValidationError es statusCode) =
     Inr \<lparr>status = statusCode,
          sent = Json_error \<lparr>success = False, error = ''Validation failed'',
                             message = ''Invalid request data'', details = Some es\<rparr>\<rparr>"
| "errorHandler (AppError n m statusCode) =
     Inr \<lparr>status = statusCode,
          sent = Json_error \<lparr>success = False, error = n, message = m, details = None\<rparr>\<rparr>"
| "errorHandler (Error n m props) =
     (if n = ''SyntaxError'' \<and> ''body'' \<in> set (map fst props) then Inr invalid_json_response
      else Inr generic_error_response)"
| "errorHandler (Thrown v) =
     and_then (getp v ''name'') (\<lambda>n.
       if n = JStr ''SyntaxError''
       then and_then (js_in ''body'' v) (\<lambda>has_body.
              if has_body then Inr invalid_json_response else Inr generic_error_response)
       else Inr generic_error_response)"

section \<open>The update controller (\<^verbatim>\<open>controllers/customizationController.ts\<close>)\<close>

record request =
  params_id :: jsval
  body :: jsval

definition not_found_response :: "string \<Rightarrow> response" where
  "not_found_response ident =
     \<lparr>status = 404,
      sent = Json_error \<lparr>success = False, error = ''Not found'',
                         message = ''Customization with ID '' @ ident @ '' not found'',
                         details = None\<rparr>\<rparr>"

definition update_failed_response :: response where
  "update_failed_response =
     \<lparr>status = 500,
      sent = Json_error \<lparr>success = False, error = ''Update failed'',
                         message = ''Failed to update customization'', details = None\<rparr>\<rparr>"

text \<open>\<^verbatim>\<open>updateCustomization\<close>: \<open>Inr\<close> is the response it sends itself, \<open>Inl\<close> the
  error it passes to \<^verbatim>\<open>next\<close>. The log calls are left out.\<close>

definition updateCustomization ::
    "database \<Rightarrow> nat \<Rightarrow> request \<Rightarrow> (response \<times> database) result" where
  "updateCustomization db now req =
     (let ident = params_id req
      in if \<not> truthy ident \<or> typeof ident \<noteq> ''string''
         then Inl (new_ValidationError [''Customization ID is required and must be a string''])
         else
           and_then (exists db (as_string ident)) (\<lambda>found.
             if \<not> found then Inr (not_found_response (as_string ident), db)
             else
               and_then (validateUpdateCustomization (body req)) (\<lambda>validation.
                 if \<not> isValid validation then Inl (new_ValidationError (errors validation))
                 else
                   and_then (update db now (as_string ident) (as_update_request (body req)))
                     (\<lambda>(updatedCustomization, db').
                       case updatedCustomization of
                         None \<Rightarrow> Inr (update_failed_response, db')
                       | Some c \<Rightarrow>
                           Inr (\<lparr>status = 200,
                                 sent = Json_success c ''Customization updated successfully''\<rparr>,
                                db')))))"

text \<open>\<^verbatim>\<open>PUT /api/customizations/:id\<close> as \<^verbatim>\<open>app.ts\<close> wires it: the error the
  controller passes to \<^verbatim>\<open>next\<close> goes to \<^verbatim>\<open>errorHandler\<close>, and the store is as it
  was before the request.\<close>

definition put_customization ::
    "database \<Rightarrow> nat \<Rightarrow> request \<Rightarrow> (response \<times> database) result" where
  "put_customization db now req =
     (case updateCustomization db now req of
        Inr r \<Rightarrow> Inr r
      | Inl e \<Rightarrow> and_then (errorHandler e) (\<lambda>res. Inr (res, db)))"

section \<open>Base64 payloads\<close>

text \<open>The number of bytes that a padded base64 text stands for: three for every four
  characters, less one for every padding sign. This is the length of the buffer that
  \<^verbatim>\<open>Buffer.from(s, 'base64')\<close> returns on such a text.\<close>

definition decoded_size :: "string \<Rightarrow> nat" where
  "decoded_size s = length s div 4 * 3 - length (filter (\<lambda>c. c = CHR ''='') s)"

text \<open>The base64 text of 102400 zero bytes: 34133 full groups, and a last group that
  holds one byte and two padding signs.\<close>

definition zeros_100KiB :: string where
  "zeros_100KiB = replicate 136534 (CHR ''A'') @ ''==''"

section \<open>Identifiers and example data\<close>

text \<open>The spec's words for a well-formed identifier, "a canonical 36-character hyphenated
  hex identifier pattern", to be compared with \<open>isValidUUID\<close>: groups of 8, 4, 4, 4 and
  12 hexadecimal digits, separated by hyphens.\<close>

definition hyphenated_hex_36 :: "string \<Rightarrow> bool" where
  "hyphenated_hex_36 s =
     list_all2 in_class
       (replicate 8 Hex @ [Hyphen] @ replicate 4 Hex @ [Hyphen] @ replicate 4 Hex @ [Hyphen]
        @ replicate 4 Hex @ [Hyphen] @ replicate 12 Hex) s"

text \<open>A store that holds one customization with one piece.\<close>

definition example_id :: string where
  "example_id = ''123e4567-e89b-42d3-a456-426614174000''"

definition example_db :: database where
  "example_db =
     \<lparr>customizations =
        [\<lparr>c_id = example_id, c_name = ''Test Chess Set'', c_description = Null,
          c_board_svg = Null, c_created_at = 1, c_updated_at = 1\<rparr>],
      chess_pieces =
        [\<lparr>cp_id = 1, cp_customization_id = example_id, cp_type = ''pawn'',
          cp_color = ''white'', cp_svg_data = ''AAAA''\<rparr>],
      chess_pieces_id_seq = 2, connected = True\<rparr>"

text \<open>The store before the first request, and two request bodies.\<close>

definition empty_db :: database where
  "empty_db = \<lparr>customizations = [], chess_pieces = [], chess_pieces_id_seq = 1, connected = True\<rparr>"

definition body_empty_description :: jsval where
  "body_empty_description =
     JObj [(''name'', JStr ''Test Chess Set''), (''description'', JStr ''''),
           (''pieces'', JArr [JObj [(''type'', JStr ''pawn''), (''color'', JStr ''white''),
                                    (''svgData'', JStr ''AAAA'')]])]"

definition two_pieces :: "jsval list" where
  "two_pieces =
     [JObj [(''type'', JStr ''king''), (''color'', JStr ''black''), (''svgData'', JStr ''AAAA'')],
      JObj [(''type'', JStr ''queen''), (''color'', JStr ''white''), (''svgData'', JStr ''AA=='')]]"

text \<open>A piece whose \<^verbatim>\<open>svgData\<close> is a data URL with the character of code 0 as its
  media type.\<close>

definition nul_piece :: jsval where
  "nul_piece =
     JObj [(''type'', JStr ''king''), (''color'', JStr ''black''),
           (''svgData'', JStr (''data:'' @ [CHR 0x00] @ '';base64,AAAA''))]"

text \<open>A thrown plain object that has the name and the \<^verbatim>\<open>body\<close> property of the JSON
  parser's error without being an \<^verbatim>\<open>Error\<close>.\<close>

definition syntax_error_lookalike :: jsval where
  "syntax_error_lookalike = JObj [(''name'', JStr ''SyntaxError''), (''body'', JStr ''{'')]"

text \<open>The customization that the example store holds.\<close>

definition example_customization :: ChessCustomization where
  "example_customization =
     \<lparr>id' = example_id, name = ''Test Chess Set'', description = Null, boardSvg = Null,
      pieces = [\<lparr>type = ''pawn'', color = ''white'', svgData = ''AAAA''\<rparr>],
      createdAt = 1, updatedAt = 1\<rparr>"

section \<open>Notions used in the statements about the store\<close>

text \<open>A row of \<^verbatim>\<open>chess_pieces\<close> read as a piece, and a piece written as a row.\<close>

definition piece_of_row :: "chess_pieces_row \<Rightarrow> ChessPiece" where
  "piece_of_row cp = \<lparr>type = cp_type cp, color = cp_color cp, svgData = cp_svg_data cp\<rparr>"

definition row_of_piece :: "nat \<Rightarrow> string \<Rightarrow> ChessPiece \<Rightarrow> chess_pieces_row" where
  "row_of_piece n k p =
     \<lparr>cp_id = n, cp_customization_id = k, cp_type = type p, cp_color = color p,
      cp_svg_data = svgData p\<rparr>"

text \<open>The customization that \<^verbatim>\<open>transformRowsToCustomizations\<close> builds from a row of
  \<^verbatim>\<open>customizations\<close> and the pieces joined to it.\<close>

definition customization_of :: "customizations_row \<Rightarrow> ChessPiece list \<Rightarrow> ChessCustomization" where
  "customization_of c ps =
     \<lparr>id' = c_id c, name = c_name c, description = c_description c,
      boardSvg = c_board_svg c, pieces = ps, createdAt = c_created_at c,
      updatedAt = c_updated_at c\<rparr>"

text \<open>What \<^verbatim>\<open>validateChessPiece\<close> establishes about a piece, as far as the store
  depends on it: the two enumerations and a non-empty \<^verbatim>\<open>svgData\<close>.\<close>

definition piece_ok :: "ChessPiece \<Rightarrow> bool" where
  "piece_ok p = (type p \<in> set validTypes \<and> color p \<in> set validColors \<and> svgData p \<noteq> [])"

text \<open>A string that the store accepts as a text parameter.\<close>

definition no_nul :: "string \<Rightarrow> bool" where
  "no_nul s = (CHR 0x00 \<notin> set s)"

text \<open>The states of the store that the schema allows: the two primary keys, the
  sequence ahead of every identifier it has issued, and the foreign key.\<close>

definition db_wf :: "database \<Rightarrow> bool" where
  "db_wf db =
     (distinct (map c_id (customizations db))
      \<and> distinct (map cp_id (chess_pieces db))
      \<and> (\<forall>cp \<in> set (chess_pieces db). cp_id cp < chess_pieces_id_seq db)
      \<and> (\<forall>cp \<in> set (chess_pieces db).
            cp_customization_id cp \<in> set (map c_id (customizations db))))"

section \<open>Properties of the validators\<close>

lemma and_then_Inr [simp]: "and_then (Inr x) f = f x"
  by (simp add: and_then_def)

lemma and_then_Inl [simp]: "and_then (Inl e) f = Inl e"
  by (simp add: and_then_def)

lemma isValidSvgSize_length:
  "s \<noteq> [] \<Longrightarrow> isValidSvgSize (JStr s) = Inr (length (remove_data_url_prefix s) \<le> 136533)"
proof -
  have "(3 * rat_of_nat n \<le> 409600) = (n \<le> 136533)" for n :: nat
  proof -
    have "(3 * rat_of_nat n \<le> 409600) = (rat_of_nat (3 * n) \<le> rat_of_nat 409600)"
      by simp
    also have "\<dots> = (3 * n \<le> 409600)"
      by (simp only: of_nat_le_iff)
    also have "\<dots> = (n \<le> 136533)"
      by arith
    finally show ?thesis .
  qed
  then show "s \<noteq> [] \<Longrightarrow> ?thesis"
    by (simp add: isValidSvgSize_def maxSizeInBytes_def field_simps)
qed

lemma isValidBase64_string:
  "s \<noteq> [] \<Longrightarrow> isValidBase64 (JStr s) =
     Inr (base64Regex_test (remove_data_url_prefix s) \<and> length (remove_data_url_prefix s) mod 4 = 0)"
  by (simp add: isValidBase64_def)

lemma isValidBase64_not_string: "\<forall>s. v \<noteq> JStr s \<Longrightarrow> isValidBase64 v = Inr False"
  by (cases v) (simp_all add: isValidBase64_def)

lemma base64Regex_test_chars:
  assumes "base64Regex_test d" and "c \<in> set d"
  shows "base64_class c \<or> c = CHR ''=''"
proof (cases "c \<in> set (takeWhile base64_class d)")
  case True
  then show ?thesis by (auto dest: set_takeWhileD)
next
  case False
  have "set d = set (takeWhile base64_class d) \<union> set (dropWhile base64_class d)"
    by (metis set_append takeWhile_dropWhile_id)
  with assms(2) False have "c \<in> set (dropWhile base64_class d)" by blast
  with assms show ?thesis by (auto simp: base64Regex_test_def Let_def)
qed

lemma base64_class_A: "base64_class (CHR ''A'')"
  by (simp add: base64_class_def)

lemma regex_As: "base64Regex_test (replicate n (CHR ''A'') @ ''=='')"
proof -
  have "dropWhile base64_class (replicate n (CHR ''A'') @ ''=='') = dropWhile base64_class ''==''"
    by (rule dropWhile_append2) (simp add: base64_class_A)
  then show ?thesis
    by (simp add: base64Regex_test_def Let_def base64_class_def)
qed


lemma remove_prefix_As: "0 < n \<Longrightarrow> remove_data_url_prefix (replicate n (CHR ''A'') @ s) = replicate n (CHR ''A'') @ s"
  by (cases n) (simp_all add: remove_data_url_prefix_def)

lemma size_As: "0 < n \<Longrightarrow> isValidSvgSize (JStr (replicate n (CHR ''A'') @ ''=='')) = Inr (n + 2 \<le> 136533)"
  by (simp add: isValidSvgSize_length remove_prefix_As)

lemma b64_As: "0 < n \<Longrightarrow> isValidBase64 (JStr (replicate n (CHR ''A'') @ ''=='')) = Inr ((n + 2) mod 4 = 0)"
  by (simp add: isValidBase64_string remove_prefix_As regex_As)

lemma getp_total: "v \<noteq> JUndefined \<Longrightarrow> v \<noteq> JNull \<Longrightarrow> \<exists>x. getp v k = Inr x"
  by (cases v) simp_all

lemma object_cases:
  assumes "\<not> (\<not> truthy v \<or> typeof v \<noteq> ''object'')"
  obtains xs where "v = JArr xs" | kvs where "v = JObj kvs"
  using assms by (cases v) simp_all

lemma base64_field_errors_total: "\<exists>es. base64_field_errors (JStr s) a b = Inr es"
  by (simp add: base64_field_errors_def isValidBase64_def isValidSvgSize_def)

lemma string_cases:
  assumes "\<not> (\<not> truthy v \<or> typeof v \<noteq> ''string'')"
  obtains s where "v = JStr s" and "s \<noteq> []"
  using assms by (cases v) simp_all

lemma piece_svgData_errors_total:
  assumes "getp piece ''svgData'' = Inr d"
  shows "\<exists>es. piece_svgData_errors p piece = Inr es"
proof (cases "\<not> truthy d \<or> typeof d \<noteq> ''string''")
  case True
  with assms show ?thesis by (simp add: piece_svgData_errors_def)
next
  case False
  then obtain s where "d = JStr s" by (rule string_cases)
  with assms False show ?thesis
    using base64_field_errors_total by (simp add: piece_svgData_errors_def)
qed

lemma validateChessPiece_total: "\<exists>es. validateChessPiece piece i = Inr es"
proof (cases "\<not> truthy piece \<or> typeof piece \<noteq> ''object''")
  case True
  then show ?thesis by (simp add: validateChessPiece_def Let_def)
next
  case False
  then have nn: "piece \<noteq> JUndefined" "piece \<noteq> JNull" by auto
  obtain t where t: "getp piece ''type'' = Inr t" using getp_total [OF nn] by blast
  obtain c where c: "getp piece ''color'' = Inr c" using getp_total [OF nn] by blast
  obtain d where d: "getp piece ''svgData'' = Inr d" using getp_total [OF nn] by blast
  obtain es where es: "piece_svgData_errors (''Piece at index '' @ show_nat i @ '':'') piece = Inr es"
    using piece_svgData_errors_total [OF d] by blast
  show ?thesis
    using False t c es
    by (simp add: validateChessPiece_def Let_def piece_type_errors_def piece_color_errors_def)
qed

lemma validate_each_piece_total: "\<exists>es. validate_each_piece ps i = Inr es"
proof (induction ps arbitrary: i)
  case Nil
  show ?case by simp
next
  case (Cons p ps)
  obtain e where e: "validateChessPiece p i = Inr e" using validateChessPiece_total by blast
  obtain es where es: "validate_each_piece ps (Suc i) = Inr es" using Cons.IH by blast
  show ?case by (simp add: e es)
qed

lemma create_name_errors_total:
  assumes "getp data ''name'' = Inr n"
  shows "\<exists>es. create_name_errors data = Inr es"
proof (cases "\<not> truthy n \<or> typeof n \<noteq> ''string''")
  case True
  with assms show ?thesis by (simp add: create_name_errors_def)
next
  case False
  then obtain s where "n = JStr s" by (rule string_cases)
  with assms False show ?thesis by (simp add: create_name_errors_def)
qed

lemma update_name_errors_total:
  assumes "getp data ''name'' = Inr n"
  shows "\<exists>es. update_name_errors data = Inr es"
  using assms by (cases n) (simp_all add: update_name_errors_def)

lemma create_pieces_errors_total:
  assumes "getp data ''pieces'' = Inr p"
  shows "\<exists>es. create_pieces_errors data = Inr es"
  using assms validate_each_piece_total by (cases p) (simp_all add: create_pieces_errors_def)

lemma update_pieces_errors_total:
  assumes "getp data ''pieces'' = Inr p"
  shows "\<exists>es. update_pieces_errors data = Inr es"
  using assms validate_each_piece_total by (cases p) (simp_all add: update_pieces_errors_def)

lemma description_errors_total:
  assumes "getp data ''description'' = Inr d"
  shows "\<exists>es. description_errors data = Inr es"
  using assms by (simp add: description_errors_def)

lemma boardSvg_errors_total:
  assumes "getp data ''boardSvg'' = Inr b"
  shows "\<exists>es. boardSvg_errors data = Inr es"
  using assms base64_field_errors_total by (cases b) (simp_all add: boardSvg_errors_def)

lemma no_field_errors_total:
  assumes "data \<noteq> JUndefined" "data \<noteq> JNull"
  shows "\<exists>es. no_field_errors data = Inr es"
proof -
  obtain n where n: "getp data ''name'' = Inr n" using getp_total [OF assms] by blast
  obtain d where d: "getp data ''description'' = Inr d" using getp_total [OF assms] by blast
  obtain b where b: "getp data ''boardSvg'' = Inr b" using getp_total [OF assms] by blast
  obtain p where p: "getp data ''pieces'' = Inr p" using getp_total [OF assms] by blast
  show ?thesis by (simp add: no_field_errors_def hasValidField_def n d b p)
qed

lemma validateCreateCustomization_total: "\<exists>r. validateCreateCustomization data = Inr r"
proof (cases "\<not> truthy data \<or> typeof data \<noteq> ''object''")
  case True
  then show ?thesis by (simp add: validateCreateCustomization_def)
next
  case False
  then have nn: "data \<noteq> JUndefined" "data \<noteq> JNull" by auto
  obtain e1 where e1: "create_name_errors data = Inr e1"
    using getp_total [OF nn] create_name_errors_total by blast
  obtain e2 where e2: "create_pieces_errors data = Inr e2"
    using getp_total [OF nn] create_pieces_errors_total by blast
  obtain e3 where e3: "description_errors data = Inr e3"
    using getp_total [OF nn] description_errors_total by blast
  obtain e4 where e4: "boardSvg_errors data = Inr e4"
    using getp_total [OF nn] boardSvg_errors_total by blast
  show ?thesis using False by (simp add: validateCreateCustomization_def e1 e2 e3 e4 Let_def)
qed

lemma validateUpdateCustomization_total: "\<exists>r. validateUpdateCustomization data = Inr r"
proof (cases "\<not> truthy data \<or> typeof data \<noteq> ''object''")
  case True
  then show ?thesis by (simp add: validateUpdateCustomization_def)
next
  case False
  then have nn: "data \<noteq> JUndefined" "data \<noteq> JNull" by auto
  obtain e0 where e0: "no_field_errors data = Inr e0"
    using no_field_errors_total [OF nn] by blast
  obtain e1 where e1: "update_name_errors data = Inr e1"
    using getp_total [OF nn] update_name_errors_total by blast
  obtain e2 where e2: "description_errors data = Inr e2"
    using getp_total [OF nn] description_errors_total by blast
  obtain e3 where e3: "boardSvg_errors data = Inr e3"
    using getp_total [OF nn] boardSvg_errors_total by blast
  obtain e4 where e4: "update_pieces_errors data = Inr e4"
    using getp_total [OF nn] update_pieces_errors_total by blast
  show ?thesis using False by (simp add: validateUpdateCustomization_def e0 e1 e2 e3 e4 Let_def)
qed

lemma isValidSvgSize_exceeding:
  assumes "s \<noteq> []" and "102400 < decoded_size (remove_data_url_prefix s)"
  shows "isValidSvgSize (JStr s) = Inr False"
proof -
  have "decoded_size (remove_data_url_prefix s) \<le> length (remove_data_url_prefix s) div 4 * 3"
    by (simp add: decoded_size_def)
  with assms(2) have "136533 < length (remove_data_url_prefix s)" by arith
  with assms(1) show ?thesis by (simp add: isValidSvgSize_length)
qed

text \<open>
  C3. \<^verbatim>\<open>isValidSvgSize\<close> is meant to accept a payload of up to 100 KiB, the bound
  included. On the base64 text of exactly 102400 bytes, which is well-formed base64 of
  136536 characters, it computes \<open>136536 * 3 / 4 = 102402\<close>, because the two padding
  signs are counted as data, and returns \<^verbatim>\<open>false\<close>.
\<close>

theorem isValidSvgSize_rejects_exactly_100KiB:
  "decoded_size zeros_100KiB = 102400
   \<and> isValidBase64 (JStr zeros_100KiB) = Inr True
   \<and> isValidSvgSize (JStr zeros_100KiB) = Inr False"
proof -
  have "decoded_size zeros_100KiB = 102400"
    by (simp add: decoded_size_def zeros_100KiB_def)
  moreover have "isValidBase64 (JStr zeros_100KiB) = Inr True"
    using b64_As [of 136534] by (simp add: zeros_100KiB_def)
  moreover have "isValidSvgSize (JStr zeros_100KiB) = Inr False"
    using size_As [of 136534] by (simp add: zeros_100KiB_def)
  ultimately show ?thesis by simp
qed

theorem isValidSvgSize_rejects_exactly_100KiB_witness:
  "length zeros_100KiB = 136536 \<and> isValidSvgSize (JStr zeros_100KiB) \<noteq> Inr True"
  using isValidSvgSize_rejects_exactly_100KiB by (simp add: zeros_100KiB_def)

text \<open>
  C5. \<^verbatim>\<open>isValidBase64\<close> returns \<^verbatim>\<open>false\<close> on every string whose length, after the
  removal of a data-URL prefix, is not a multiple of 4; on every string that, after that
  removal, contains a character that is neither in the base64 alphabet nor the padding
  sign; on the empty string, on \<^verbatim>\<open>null\<close>, on \<^verbatim>\<open>undefined\<close>, and on every value that
  is not a string.
\<close>

theorem isValidBase64_rejects:
  "(length (remove_data_url_prefix s) mod 4 \<noteq> 0 \<longrightarrow> isValidBase64 (JStr s) = Inr False)
   \<and> ((\<exists>c \<in> set (remove_data_url_prefix s). \<not> base64_class c \<and> c \<noteq> CHR ''='')
        \<longrightarrow> isValidBase64 (JStr s) = Inr False)
   \<and> isValidBase64 (JStr []) = Inr False
   \<and> isValidBase64 JNull = Inr False
   \<and> isValidBase64 JUndefined = Inr False
   \<and> ((\<forall>t. v \<noteq> JStr t) \<longrightarrow> isValidBase64 v = Inr False)"
proof -
  have len: "isValidBase64 (JStr s) = Inr False" if "length (remove_data_url_prefix s) mod 4 \<noteq> 0"
    using that by (cases "s = []") (simp_all add: isValidBase64_def)
  have chars: "isValidBase64 (JStr s) = Inr False"
    if "\<exists>c \<in> set (remove_data_url_prefix s). \<not> base64_class c \<and> c \<noteq> CHR ''=''"
  proof -
    from that have "\<not> base64Regex_test (remove_data_url_prefix s)"
      using base64Regex_test_chars by blast
    then show ?thesis by (cases "s = []") (simp_all add: isValidBase64_def)
  qed
  have empty: "isValidBase64 (JStr []) = Inr False" "isValidBase64 JNull = Inr False"
      "isValidBase64 JUndefined = Inr False"
    by (simp_all add: isValidBase64_def)
  from len chars empty isValidBase64_not_string [of v] show ?thesis by blast
qed

theorem isValidBase64_rejects_witness:
  "length (remove_data_url_prefix ''data:image/svg+xml;base64,ab!'') mod 4 \<noteq> 0
   \<and> (\<exists>c \<in> set (remove_data_url_prefix ''data:image/svg+xml;base64,ab!'').
         \<not> base64_class c \<and> c \<noteq> CHR ''='')
   \<and> isValidBase64 (JStr ''data:image/svg+xml;base64,ab!'') = Inr False
   \<and> (\<forall>t. JNum 123 \<noteq> JStr t)
   \<and> isValidBase64 (JNum 123) = Inr False"
  using isValidBase64_rejects [of "''data:image/svg+xml;base64,ab!''" "JNum 123"]
  by (simp add: remove_data_url_prefix_def base64_class_def)

text \<open>
  C7. On a body that is absent, \<^verbatim>\<open>null\<close> or not an object (a boolean, a number or a
  string), both validators return the invalid result whose only error is
  "Request body is required"; and on no value whatsoever does either validator throw.
\<close>

theorem validators_body_required:
  "(data = JUndefined \<or> data = JNull \<or> (\<exists>b. data = JBool b) \<or> (\<exists>n. data = JNum n)
      \<or> (\<exists>s. data = JStr s)
    \<longrightarrow> validateCreateCustomization data
          = Inr \<lparr>isValid = False, errors = [''Request body is required'']\<rparr>
      \<and> validateUpdateCustomization data
          = Inr \<lparr>isValid = False, errors = [''Request body is required'']\<rparr>)
   \<and> (\<exists>r. validateCreateCustomization any = Inr r)
   \<and> (\<exists>r. validateUpdateCustomization any = Inr r)"
  using validateCreateCustomization_total validateUpdateCustomization_total
  by (auto simp: validateCreateCustomization_def validateUpdateCustomization_def)

theorem validators_body_required_witness:
  "validateCreateCustomization (JStr ''abc'')
     = Inr \<lparr>isValid = False, errors = [''Request body is required'']\<rparr>
   \<and> validateUpdateCustomization (JStr ''abc'')
     = Inr \<lparr>isValid = False, errors = [''Request body is required'']\<rparr>"
  using validators_body_required [of "JStr ''abc''"] by simp

text \<open>
  C8. \<^verbatim>\<open>validateCreateCustomization\<close> collects every violation: on an object whose
  \<^verbatim>\<open>name\<close> is missing or is a string that is empty after trimming, the error list
  contains "Name is required and must be a non-empty string"; on an object whose
  \<^verbatim>\<open>pieces\<close> is the empty array, it contains "At least one chess piece is required";
  both conclusions are about the one result of the one call, so a payload with both
  violations gets both messages.
\<close>

theorem validateCreate_collects_all:
  "\<exists>r. validateCreateCustomization (JObj kvs) = Inr r
     \<and> ((map_of kvs ''name'' = None \<or> (\<exists>s. map_of kvs ''name'' = Some (JStr s) \<and> trim s = []))
          \<longrightarrow> ''Name is required and must be a non-empty string'' \<in> set (errors r) \<and> \<not> isValid r)
     \<and> (map_of kvs ''pieces'' = Some (JArr [])
          \<longrightarrow> ''At least one chess piece is required'' \<in> set (errors r) \<and> \<not> isValid r)"
proof -
  let ?data = "JObj kvs"
  have nn: "?data \<noteq> JUndefined" "?data \<noteq> JNull" by simp_all
  obtain e1 where e1: "create_name_errors ?data = Inr e1"
    using getp_total [OF nn] create_name_errors_total by blast
  obtain e2 where e2: "create_pieces_errors ?data = Inr e2"
    using getp_total [OF nn] create_pieces_errors_total by blast
  obtain e3 where e3: "description_errors ?data = Inr e3"
    using getp_total [OF nn] description_errors_total by blast
  obtain e4 where e4: "boardSvg_errors ?data = Inr e4"
    using getp_total [OF nn] boardSvg_errors_total by blast
  have r: "validateCreateCustomization ?data
             = Inr \<lparr>isValid = (e1 @ e2 @ e3 @ e4 = []), errors = e1 @ e2 @ e3 @ e4\<rparr>"
    by (simp add: validateCreateCustomization_def e1 e2 e3 e4 Let_def)
  have a: "e1 = [''Name is required and must be a non-empty string'']"
    if "map_of kvs ''name'' = None \<or> (\<exists>s. map_of kvs ''name'' = Some (JStr s) \<and> trim s = [])"
    using that e1 by (auto simp: create_name_errors_def split: if_splits)
  have b: "e2 = [''At least one chess piece is required'']"
    if "map_of kvs ''pieces'' = Some (JArr [])"
    using that e2 by (simp add: create_pieces_errors_def)
  show ?thesis
    unfolding r using a b by auto
qed

theorem validateCreate_collects_all_witness:
  "map_of [(''description'', JStr ''Invalid request''), (''pieces'', JArr [])] ''name'' = None
   \<and> map_of [(''description'', JStr ''Invalid request''), (''pieces'', JArr [])] ''pieces''
       = Some (JArr [])
   \<and> (\<exists>r. validateCreateCustomization
              (JObj [(''description'', JStr ''Invalid request''), (''pieces'', JArr [])]) = Inr r
        \<and> ''Name is required and must be a non-empty string'' \<in> set (errors r)
        \<and> ''At least one chess piece is required'' \<in> set (errors r)
        \<and> \<not> isValid r)"
  using validateCreate_collects_all
          [of "[(''description'', JStr ''Invalid request''), (''pieces'', JArr [])]"]
  by auto

section \<open>Properties of the error handler\<close>

text \<open>
  C9 (as amended). An error that is neither a \<^verbatim>\<open>ValidationError\<close> nor an \<^verbatim>\<open>AppError\<close>,
  and that does not have both the name \<^verbatim>\<open>SyntaxError\<close> and a \<^verbatim>\<open>body\<close> property, be
  it an \<^verbatim>\<open>Error\<close> or any other thrown value, is answered with status 500 and the
  generic envelope, whatever its shape: an \<^verbatim>\<open>Error\<close> of any other kind, a thrown
  string, number, boolean, array or plain object. Express hands only truthy errors to
  an error handler, so \<^verbatim>\<open>null\<close> and \<^verbatim>\<open>undefined\<close> do not reach it.
\<close>

theorem errorHandler_unexpected:
  assumes "\<forall>es st. e \<noteq> ValidationError es st"
    and "\<forall>n m st. e \<noteq> AppError n m st"
    and "\<forall>m props. e = Error ''SyntaxError'' m props \<longrightarrow> ''body'' \<notin> set (map fst props)"
    and "\<forall>kvs. e = Thrown (JObj kvs) \<longrightarrow>
           \<not> (map_of kvs ''name'' = Some (JStr ''SyntaxError'') \<and> ''body'' \<in> set (map fst kvs))"
    and "e \<noteq> Thrown JNull" and "e \<noteq> Thrown JUndefined"
  shows "errorHandler e =
           Inr \<lparr>status = 500,
                sent = Json_error \<lparr>success = False, error = ''Internal server error'',
                                   message = ''An unexpected error occurred'',
                                   details = None\<rparr>\<rparr>"
proof (cases e)
  case (ValidationError es st)
  with assms(1) show ?thesis by simp
next
  case (AppError n m st)
  with assms(2) show ?thesis by simp
next
  case (Error n m props)
  with assms(3) show ?thesis by (auto simp: generic_error_response_def)
next
  case (Thrown v)
  with assms(4,5,6) show ?thesis
    by (cases v) (auto simp: generic_error_response_def split: option.splits)
qed

theorem errorHandler_unexpected_witness:
  "errorHandler (Thrown (JStr ''boom'')) =
     Inr \<lparr>status = 500,
          sent = Json_error \<lparr>success = False, error = ''Internal server error'',
                             message = ''An unexpected error occurred'', details = None\<rparr>\<rparr>
   \<and> errorHandler (new_Error ''Failed to get chess customization: connection failure'') =
     Inr \<lparr>status = 500,
          sent = Json_error \<lparr>success = False, error = ''Internal server error'',
                             message = ''An unexpected error occurred'', details = None\<rparr>\<rparr>"
  using errorHandler_unexpected [of "Thrown (JStr ''boom'')"]
    errorHandler_unexpected [of "new_Error ''Failed to get chess customization: connection failure''"]
  by (simp add: new_Error_def)

text \<open>The claim as stated fails on a thrown value that is not an \<^verbatim>\<open>Error\<close>, hence
  neither of the two error classes nor the JSON parser's \<^verbatim>\<open>SyntaxError\<close>, but has the
  name \<^verbatim>\<open>SyntaxError\<close> and a \<^verbatim>\<open>body\<close> property: the handler tests the two properties
  and not the class, and answers with status 400.\<close>

theorem errorHandler_unexpected_counterexample:
  "errorHandler (Thrown syntax_error_lookalike) =
     Inr \<lparr>status = 400,
          sent = Json_error \<lparr>success = False, error = ''Invalid JSON'',
                             message = ''Request body contains invalid JSON'',
                             details = None\<rparr>\<rparr>
   \<and> errorHandler (Thrown syntax_error_lookalike) \<noteq>
     Inr \<lparr>status = 500,
          sent = Json_error \<lparr>success = False, error = ''Internal server error'',
                             message = ''An unexpected error occurred'', details = None\<rparr>\<rparr>"
  by (simp add: syntax_error_lookalike_def invalid_json_response_def)

section \<open>Properties of the storage class\<close>

lemma rethrow_Inr [simp]: "rethrow what (Inr x) = Inr x"
  by (simp add: rethrow_def)

lemma invalid_uuid_is_absent:
  assumes "\<not> isValidUUID ident"
  shows "getById db ident = Inr None" and "update db now ident data = Inr (None, db)"
    and "delete db ident = Inr (False, db)" and "exists db ident = Inr False"
  using assms by (simp_all add: getById_def update_def delete_def exists_def)

lemma isValidUUID_hyphenated_hex_36:
  assumes "isValidUUID s"
  shows "hyphenated_hex_36 s"
proof -
  let ?w = "\<lambda>c. case c of Version \<Rightarrow> Hex | Variant \<Rightarrow> Hex | Hex \<Rightarrow> Hex | Hyphen \<Rightarrow> Hyphen"
  have "in_class (?w c) x" if "in_class c x" for c x
    using that by (cases c) auto
  with assms have "list_all2 (\<lambda>c x. in_class (?w c) x) uuidRegex s"
    unfolding isValidUUID_def by (auto elim: list_all2_mono)
  then have "list_all2 in_class (map ?w uuidRegex) s"
    by (simp add: list_all2_map1)
  moreover have "map ?w uuidRegex =
      replicate 8 Hex @ [Hyphen] @ replicate 4 Hex @ [Hyphen] @ replicate 4 Hex @ [Hyphen]
        @ replicate 4 Hex @ [Hyphen] @ replicate 12 Hex"
    by (simp add: uuidRegex_def eval_nat_numeral)
  ultimately show ?thesis by (simp add: hyphenated_hex_36_def)
qed

lemma not_hex_36: "\<not> hyphenated_hex_36 ''not-a-uuid''"
  by (simp add: hyphenated_hex_36_def eval_nat_numeral)

text \<open>
  C6. An identifier that does not have the shape of 36 hyphenated hexadecimal digits is
  treated as absent, without any error and without touching the store:
  \<^verbatim>\<open>getById\<close> and \<^verbatim>\<open>update\<close> return \<^verbatim>\<open>undefined\<close>, \<^verbatim>\<open>delete\<close> and
  \<^verbatim>\<open>exists\<close> return \<^verbatim>\<open>false\<close>, also when the store is not reachable.
\<close>

theorem malformed_id_is_absent:
  assumes "\<not> hyphenated_hex_36 ident"
  shows "getById db ident = Inr None \<and> update db now ident data = Inr (None, db)
         \<and> delete db ident = Inr (False, db) \<and> exists db ident = Inr False"
  using assms isValidUUID_hyphenated_hex_36 invalid_uuid_is_absent by blast

theorem malformed_id_is_absent_witness:
  "\<not> hyphenated_hex_36 ''not-a-uuid''
   \<and> getById example_db ''not-a-uuid'' = Inr None
   \<and> update example_db 7 ''not-a-uuid''
        \<lparr>upd_name = Some ''x'', upd_description = None, upd_boardSvg = None, upd_pieces = None\<rparr>
      = Inr (None, example_db)
   \<and> delete example_db ''not-a-uuid'' = Inr (False, example_db)
   \<and> exists example_db ''not-a-uuid'' = Inr False"
  using malformed_id_is_absent [OF not_hex_36] not_hex_36 by simp

section \<open>Properties of the update request\<close>

lemma exists_True_D:
  assumes "exists db ident = Inr True"
  shows "isValidUUID ident" and "ident \<noteq> []"
proof -
  show v: "isValidUUID ident"
    using assms by (cases "isValidUUID ident") (simp_all add: exists_def)
  then show "ident \<noteq> []"
    by (auto simp: isValidUUID_def uuidRegex_def)
qed

lemma validateUpdate_empty:
  "validateUpdateCustomization (JObj []) =
     Inr \<lparr>isValid = False,
          errors = [''At least one field (name, description, boardSvg, or pieces) must be provided for update'']\<rparr>"
  by (simp add: validateUpdateCustomization_def no_field_errors_def hasValidField_def
      update_name_errors_def description_errors_def boardSvg_errors_def update_pieces_errors_def)

lemma example_exists: "exists example_db example_id = Inr True"
  by (simp add: exists_def example_db_def example_id_def isValidUUID_def uuidRegex_def
      eval_nat_numeral select_customization_def query_def uuid_in_def hex_lower_def)

text \<open>
  C4 (as amended). A \<^verbatim>\<open>PUT\<close> for an existing customization whose body is the empty
  object is answered with status 400 and the validation envelope, whose details are
  exactly the one message "At least one field (name, description, boardSvg, or pieces)
  must be provided for update"; the store is unchanged.
\<close>

theorem put_empty_body_rejected:
  assumes "exists db ident = Inr True"
  shows "put_customization db now \<lparr>params_id = JStr ident, body = JObj []\<rparr> =
           Inr (\<lparr>status = 400,
                 sent = Json_error
                   \<lparr>success = False, error = ''Validation failed'',
                    message = ''Invalid request data'',
                    details = Some [''At least one field (name, description, boardSvg, or pieces) must be provided for update'']\<rparr>\<rparr>,
                db)"
  using assms exists_True_D(2) [OF assms]
  by (simp add: put_customization_def updateCustomization_def validateUpdate_empty
      new_ValidationError_def)

theorem put_empty_body_rejected_witness:
  "exists example_db example_id = Inr True
   \<and> put_customization example_db 7 \<lparr>params_id = JStr example_id, body = JObj []\<rparr> =
       Inr (\<lparr>status = 400,
             sent = Json_error
               \<lparr>success = False, error = ''Validation failed'',
                message = ''Invalid request data'',
                details = Some [''At least one field (name, description, boardSvg, or pieces) must be provided for update'']\<rparr>\<rparr>,
            example_db)"
  using put_empty_body_rejected [OF example_exists] example_exists by simp

text \<open>The message names the field \<^verbatim>\<open>boardSvg\<close>; the details do not contain a
  message that names it \<^verbatim>\<open>boardImage\<close>.\<close>

theorem put_empty_body_counterexample:
  "exists example_db example_id = Inr True
   \<and> put_customization example_db 7 \<lparr>params_id = JStr example_id, body = JObj []\<rparr> =
       Inr (\<lparr>status = 400,
             sent = Json_error
               \<lparr>success = False, error = ''Validation failed'',
                message = ''Invalid request data'',
                details = Some [''At least one field (name, description, boardSvg, or pieces) must be provided for update'']\<rparr>\<rparr>,
            example_db)
   \<and> ''At least one field (name, description, boardImage, or pieces) must be provided for update''
       \<notin> set [''At least one field (name, description, boardSvg, or pieces) must be provided for update'']"
proof -
  have "put_customization example_db 7 \<lparr>params_id = JStr example_id, body = JObj []\<rparr> =
       Inr (\<lparr>status = 400,
             sent = Json_error
               \<lparr>success = False, error = ''Validation failed'',
                message = ''Invalid request data'',
                details = Some [''At least one field (name, description, boardSvg, or pieces) must be provided for update'']\<rparr>\<rparr>,
            example_db)"
    using example_exists exists_True_D(2) [OF example_exists]
    by (simp add: put_customization_def updateCustomization_def validateUpdate_empty
      new_ValidationError_def)
  then show ?thesis using example_exists by simp
qed

section \<open>Round trips through the store\<close>

lemma query_Inr [simp]: "query (Inr x) = Inr x"
  by (simp add: query_def)

lemma query_Inl [simp]: "query (Inl e) = Inl (pg_error e)"
  by (simp add: query_def)

lemma varchar_fits: "length s \<le> n \<Longrightarrow> varchar n s = Inr s"
  by (simp add: varchar_def)

lemma validTypes_length: "t \<in> set validTypes \<Longrightarrow> length t \<le> 10 \<and> t \<noteq> []"
  by (auto simp: validTypes_def)

lemma validColors_length: "c \<in> set validColors \<Longrightarrow> length c \<le> 5 \<and> c \<noteq> []"
  by (auto simp: validColors_def)

lemma text_in_no_nul: "no_nul s \<Longrightarrow> text_in s = Inr s"
  by (simp add: text_in_def no_nul_def)

lemma text_in_eq_Inr: "text_in s = Inr t \<longleftrightarrow> no_nul s \<and> t = s"
  by (auto simp: text_in_def no_nul_def)

lemma nullable_text_in_eq_Inr:
  "nullable_text_in v = Inr w \<longleftrightarrow> (\<forall>s. v = Value s \<longrightarrow> no_nul s) \<and> w = v"
  by (cases v) (auto simp: text_in_def no_nul_def)

lemma validTypes_no_nul: "t \<in> set validTypes \<Longrightarrow> no_nul t"
  by (auto simp: validTypes_def no_nul_def)

lemma validColors_no_nul: "c \<in> set validColors \<Longrightarrow> no_nul c"
  by (auto simp: validColors_def no_nul_def)

lemma insert_chess_piece_ok:
  assumes "connected db" and "piece_ok p"
    and "\<forall>cp \<in> set (chess_pieces db). cp_id cp < chess_pieces_id_seq db"
    and "uuid_in k \<in> set (map c_id (customizations db))"
    and "no_nul (svgData p)" and "chess_pieces_id_seq db \<le> serial_max"
  shows "insert_chess_piece db k (type p) (color p) (svgData p) =
           Inr (db\<lparr>chess_pieces :=
                      chess_pieces db @ [row_of_piece (chess_pieces_id_seq db) (uuid_in k) p],
                    chess_pieces_id_seq := Suc (chess_pieces_id_seq db)\<rparr>)"
proof -
  from assms(2) have t: "type p \<in> set validTypes" and c: "color p \<in> set validColors"
    by (simp_all add: piece_ok_def)
  have vt: "varchar 10 (type p) = Inr (type p)"
    using validTypes_length [OF t] by (simp add: varchar_fits)
  have vc: "varchar 5 (color p) = Inr (color p)"
    using validColors_length [OF c] by (simp add: varchar_fits)
  have fresh: "chess_pieces_id_seq db \<notin> set (map cp_id (chess_pieces db))"
    using assms(3) by auto
  from t have t': "type p \<in> set [''pawn'', ''rook'', ''knight'', ''bishop'', ''queen'', ''king'']"
    by (simp add: validTypes_def)
  from c have c': "color p \<in> set [''white'', ''black'']"
    by (simp add: validColors_def)
  have room: "\<not> serial_max < chess_pieces_id_seq db"
    using assms(6) by simp
  show ?thesis
    unfolding insert_chess_piece_def
    using assms(1,4) fresh t' c' room
    by (simp add: vt vc row_of_piece_def text_in_no_nul [OF validTypes_no_nul [OF t]]
        text_in_no_nul [OF validColors_no_nul [OF c]] text_in_no_nul [OF assms(5)]
        del: set_simps)
qed

lemma insert_each_ok:
  assumes "connected db" and "\<forall>p \<in> set ps. piece_ok p"
    and "\<forall>cp \<in> set (chess_pieces db). cp_id cp < chess_pieces_id_seq db"
    and "uuid_in k \<in> set (map c_id (customizations db))"
    and "\<forall>p \<in> set ps. no_nul (svgData p)"
    and "chess_pieces_id_seq db + length ps \<le> Suc serial_max"
  shows "\<exists>rows. insert_each db k ps =
             Inr (db\<lparr>chess_pieces := chess_pieces db @ rows,
                      chess_pieces_id_seq := chess_pieces_id_seq db + length ps\<rparr>)
           \<and> map piece_of_row rows = ps
           \<and> map cp_id rows = [chess_pieces_id_seq db ..< chess_pieces_id_seq db + length ps]
           \<and> (\<forall>r \<in> set rows. cp_customization_id r = uuid_in k)"
  using assms
proof (induction ps arbitrary: db)
  case Nil
  then show ?case by simp
next
  case (Cons p ps)
  let ?row = "row_of_piece (chess_pieces_id_seq db) (uuid_in k) p"
  let ?db1 = "db\<lparr>chess_pieces := chess_pieces db @ [?row],
                  chess_pieces_id_seq := Suc (chess_pieces_id_seq db)\<rparr>"
  have step: "insert_chess_piece db k (type p) (color p) (svgData p) = Inr ?db1"
    using Cons.prems by (intro insert_chess_piece_ok) simp_all
  have "\<exists>rows. insert_each ?db1 k ps =
             Inr (?db1\<lparr>chess_pieces := chess_pieces ?db1 @ rows,
                      chess_pieces_id_seq := chess_pieces_id_seq ?db1 + length ps\<rparr>)
           \<and> map piece_of_row rows = ps
           \<and> map cp_id rows = [chess_pieces_id_seq ?db1 ..< chess_pieces_id_seq ?db1 + length ps]
           \<and> (\<forall>r \<in> set rows. cp_customization_id r = uuid_in k)"
    using Cons.prems by (intro Cons.IH) (auto simp: row_of_piece_def less_Suc_eq)
  then obtain rows where rows:
      "insert_each ?db1 k ps =
         Inr (?db1\<lparr>chess_pieces := chess_pieces ?db1 @ rows,
                    chess_pieces_id_seq := chess_pieces_id_seq ?db1 + length ps\<rparr>)"
      "map piece_of_row rows = ps"
      "map cp_id rows = [chess_pieces_id_seq ?db1 ..< chess_pieces_id_seq ?db1 + length ps]"
      "\<forall>r \<in> set rows. cp_customization_id r = uuid_in k"
    by blast
  have "insert_each db k (p # ps) =
          Inr (db\<lparr>chess_pieces := chess_pieces db @ (?row # rows),
                   chess_pieces_id_seq := chess_pieces_id_seq db + length (p # ps)\<rparr>)"
    by (simp add: step rows(1))
  moreover have "map piece_of_row (?row # rows) = p # ps"
    by (simp add: rows(2) piece_of_row_def row_of_piece_def)
  moreover have "map cp_id (?row # rows) =
      [chess_pieces_id_seq db ..< chess_pieces_id_seq db + length (p # ps)]"
    using rows(3) by (simp add: row_of_piece_def upt_rec)
  moreover have "\<forall>r \<in> set (?row # rows). cp_customization_id r = uuid_in k"
    using rows(4) by (simp add: row_of_piece_def)
  ultimately show ?case
    by (intro exI [where x = "?row # rows"] conjI)
qed

lemma insert_pieces_insert_each:
  "insert_pieces db k ps collected =
     and_then (insert_each db k ps) (\<lambda>db'. Inr (collected @ ps, db'))"
proof (induction ps arbitrary: db collected)
  case Nil
  show ?case by simp
next
  case (Cons p ps)
  show ?case
    by (cases "query (insert_chess_piece db k (type p) (color p) (svgData p))")
       (simp_all add: Cons.IH)
qed

lemma transform_row_push:
  assumes "cp_type cp \<noteq> []" "cp_color cp \<noteq> []" "cp_svg_data cp \<noteq> []"
  shows "transform_row [(c_id c, agg)] (joined c (Some cp)) =
           [(c_id c, agg\<lparr>pieces := pieces agg @ [piece_of_row cp]\<rparr>)]"
  using assms
  by (simp add: transform_row_def joined_def map_has_def map_push_piece_def piece_of_row_def)

lemma foldl_transform_rows:
  assumes "\<forall>cp \<in> set cps. cp_type cp \<noteq> [] \<and> cp_color cp \<noteq> [] \<and> cp_svg_data cp \<noteq> []"
  shows "foldl transform_row [(c_id c, agg)] (map (\<lambda>cp. joined c (Some cp)) cps) =
           [(c_id c, agg\<lparr>pieces := pieces agg @ map piece_of_row cps\<rparr>)]"
  using assms
proof (induction cps arbitrary: agg)
  case Nil
  show ?case by simp
next
  case (Cons cp cps)
  then show ?case by (simp add: transform_row_push)
qed

lemma transform_row_first:
  assumes "cp_type cp \<noteq> []" "cp_color cp \<noteq> []" "cp_svg_data cp \<noteq> []"
  shows "transform_row [] (joined c (Some cp)) = [(c_id c, customization_of c [piece_of_row cp])]"
  using assms
  by (simp add: transform_row_def joined_def map_has_def map_set_def map_push_piece_def
      piece_of_row_def customization_of_def)

lemma transform_row_null:
  "transform_row [] (joined c None) = [(c_id c, customization_of c [])]"
  by (simp add: transform_row_def joined_def map_has_def map_set_def customization_of_def)

lemma transformRows_left_join:
  assumes "\<forall>cp \<in> set cps. cp_type cp \<noteq> [] \<and> cp_color cp \<noteq> [] \<and> cp_svg_data cp \<noteq> []"
  shows "transformRowsToCustomizations
           (if cps = [] then [joined c None] else map (\<lambda>cp. joined c (Some cp)) cps)
         = [customization_of c (map piece_of_row cps)]"
proof (cases cps)
  case Nil
  then show ?thesis by (simp add: transformRowsToCustomizations_def transform_row_null)
next
  case (Cons cp rest)
  with assms have "foldl transform_row [(c_id c, customization_of c [piece_of_row cp])]
      (map (\<lambda>cp. joined c (Some cp)) rest)
    = [(c_id c, (customization_of c [piece_of_row cp])
          \<lparr>pieces := pieces (customization_of c [piece_of_row cp]) @ map piece_of_row rest\<rparr>)]"
    by (intro foldl_transform_rows) simp
  with Cons assms show ?thesis
    by (simp add: transformRowsToCustomizations_def transform_row_first customization_of_def)
qed

lemma getById_found:
  assumes "connected db" and "isValidUUID ident"
    and "filter (\<lambda>c. c_id c = uuid_in ident) (customizations db) = [c]"
    and "\<forall>cp \<in> set (chess_pieces db). cp_customization_id cp = c_id c \<longrightarrow>
           cp_type cp \<noteq> [] \<and> cp_color cp \<noteq> [] \<and> cp_svg_data cp \<noteq> []"
  shows "getById db ident =
           Inr (Some (customization_of c
             (map piece_of_row
                (sort_key cp_id
                   (filter (\<lambda>cp. cp_customization_id cp = c_id c) (chess_pieces db))))))"
proof -
  let ?cps = "sort_key cp_id (filter (\<lambda>cp. cp_customization_id cp = c_id c) (chess_pieces db))"
  have ok: "\<forall>cp \<in> set ?cps. cp_type cp \<noteq> [] \<and> cp_color cp \<noteq> [] \<and> cp_svg_data cp \<noteq> []"
    using assms(4) by simp
  have rows: "select_customization_with_pieces db ident =
      Inr (if ?cps = [] then [joined c None] else map (\<lambda>cp. joined c (Some cp)) ?cps)"
    using assms(1,3) by (simp add: select_customization_with_pieces_def left_join_pieces_def Let_def)
  have ne: "(if ?cps = [] then [joined c None] else map (\<lambda>cp. joined c (Some cp)) ?cps) \<noteq> []"
    by simp
  show ?thesis
    unfolding getById_def
    using assms(2) ne by (simp add: rows transformRows_left_join [OF ok] del: sort_key_simps)
qed

lemma js_includes_D: "js_includes xs v \<Longrightarrow> \<exists>s. v = JStr s \<and> s \<in> set xs"
  by (cases v) simp_all

lemma field_getp: "getp v k = Inr x \<Longrightarrow> field v k = x"
  by (simp add: field_def)

lemma validateChessPiece_ok:
  assumes "validateChessPiece p i = Inr []"
  shows "piece_ok (as_piece p)"
proof -
  let ?pre = "''Piece at index '' @ show_nat i @ '':''"
  have obj: "\<not> (\<not> truthy p \<or> typeof p \<noteq> ''object'')"
  proof
    assume "\<not> truthy p \<or> typeof p \<noteq> ''object''"
    then have "validateChessPiece p i = Inr [?pre @ '' must be an object'']"
      by (simp add: validateChessPiece_def Let_def)
    with assms show False by simp
  qed
  then have nn: "p \<noteq> JUndefined" "p \<noteq> JNull" by auto
  obtain t where t: "getp p ''type'' = Inr t" using getp_total [OF nn] by blast
  obtain c where c: "getp p ''color'' = Inr c" using getp_total [OF nn] by blast
  obtain d where d: "getp p ''svgData'' = Inr d" using getp_total [OF nn] by blast
  define e1 where "e1 = (if \<not> truthy t \<or> \<not> js_includes validTypes t
      then [?pre @ '' type must be one of: '' @ join '', '' validTypes] else [])"
  define e2 where "e2 = (if \<not> truthy c \<or> \<not> js_includes validColors c
      then [?pre @ '' color must be one of: '' @ join '', '' validColors] else [])"
  have e1: "piece_type_errors ?pre p = Inr e1"
    by (simp add: piece_type_errors_def t e1_def)
  have e2: "piece_color_errors ?pre p = Inr e2"
    by (simp add: piece_color_errors_def c e2_def)
  obtain e3 where e3: "piece_svgData_errors ?pre p = Inr e3"
    using piece_svgData_errors_total [OF d] by blast
  have "validateChessPiece p i = Inr (e1 @ e2 @ e3)"
    unfolding validateChessPiece_def Let_def using obj by (simp only: if_False e1 e2 e3 and_then_Inr)
  with assms have nil: "e1 = []" "e2 = []" "e3 = []" by simp_all
  have all:
    "truthy t \<and> js_includes validTypes t \<and> truthy c \<and> js_includes validColors c \<and> e3 = []"
    using nil by (auto simp: e1_def e2_def split: if_splits)
  then obtain ts cs where ts: "t = JStr ts" "ts \<in> set validTypes"
      and cs: "c = JStr cs" "cs \<in> set validColors"
    using js_includes_D by blast
  have "\<not> (\<not> truthy d \<or> typeof d \<noteq> ''string'')"
    using e3 all by (cases "\<not> truthy d \<or> typeof d \<noteq> ''string''")
      (simp_all add: piece_svgData_errors_def d)
  then obtain ds where ds: "d = JStr ds" "ds \<noteq> []" by (rule string_cases)
  show ?thesis
    by (simp add: piece_ok_def as_piece_def field_getp [OF t] field_getp [OF c]
        field_getp [OF d] ts cs ds)
qed

lemma validate_each_piece_ok:
  "validate_each_piece ps i = Inr [] \<Longrightarrow> \<forall>p \<in> set ps. piece_ok (as_piece p)"
proof (induction ps arbitrary: i)
  case Nil
  show ?case by simp
next
  case (Cons p ps)
  obtain e where e: "validateChessPiece p i = Inr e" using validateChessPiece_total by blast
  obtain es where es: "validate_each_piece ps (Suc i) = Inr es"
    using validate_each_piece_total by blast
  from Cons.prems have "e = []" "es = []" by (simp_all add: e es)
  with e es Cons.IH validateChessPiece_ok show ?case by auto
qed

lemma distinct_filter_key:
  "distinct (map f xs) \<Longrightarrow> filter (\<lambda>x. f x = k) xs = [] \<or> (\<exists>x. filter (\<lambda>x. f x = k) xs = [x])"
proof (induction xs)
  case Nil
  show ?case by simp
next
  case (Cons a xs)
  show ?case
  proof (cases "f a = k")
    case True
    from Cons.prems have "f a \<notin> f ` set xs" by simp
    with True have "\<forall>x \<in> set xs. f x \<noteq> k" by blast
    then have "filter (\<lambda>x. f x = k) xs = []" by (simp add: filter_empty_conv)
    with True show ?thesis by simp
  next
    case False
    with Cons show ?thesis by simp
  qed
qed

lemma exists_True_row:
  assumes "exists db ident = Inr True" and "distinct (map c_id (customizations db))"
  obtains c where "filter (\<lambda>c. c_id c = uuid_in ident) (customizations db) = [c]"
    and "connected db" and "isValidUUID ident"
proof -
  have v: "isValidUUID ident" using exists_True_D(1) [OF assms(1)] .
  have con: "connected db"
    using assms(1) v by (cases "connected db")
      (simp_all add: exists_def select_customization_def rethrow_def)
  have "filter (\<lambda>c. c_id c = uuid_in ident) (customizations db) \<noteq> []"
    using assms(1) v con by (simp add: exists_def select_customization_def)
  with distinct_filter_key [OF assms(2), of "uuid_in ident"] that v con show thesis
    by blast
qed

lemma update_pieces_ok:
  assumes wf: "db_wf db" and ex: "exists db ident = Inr True" and ok: "\<forall>p \<in> set ps. piece_ok p"
    and nn: "\<forall>p \<in> set ps. no_nul (svgData p)"
    and room: "chess_pieces_id_seq db + length ps \<le> Suc serial_max"
  shows "\<exists>c rows.
      filter (\<lambda>c. c_id c = uuid_in ident) (customizations db) = [c]
      \<and> update db now ident
           \<lparr>upd_name = None, upd_description = None, upd_boardSvg = None, upd_pieces = Some ps\<rparr>
         = Inr (Some (customization_of c ps),
                db\<lparr>chess_pieces :=
                      filter (\<lambda>cp. cp_customization_id cp \<noteq> uuid_in ident) (chess_pieces db) @ rows,
                    chess_pieces_id_seq := chess_pieces_id_seq db + length ps\<rparr>)
      \<and> getById
           (db\<lparr>chess_pieces :=
                  filter (\<lambda>cp. cp_customization_id cp \<noteq> uuid_in ident) (chess_pieces db) @ rows,
                chess_pieces_id_seq := chess_pieces_id_seq db + length ps\<rparr>) ident
         = Inr (Some (customization_of c ps))
      \<and> map piece_of_row rows = ps
      \<and> map cp_id rows = [chess_pieces_id_seq db ..< chess_pieces_id_seq db + length ps]
      \<and> (\<forall>r \<in> set rows. cp_customization_id r = uuid_in ident)"
proof -
  from wf have dist: "distinct (map c_id (customizations db))"
    and seq: "\<forall>cp \<in> set (chess_pieces db). cp_id cp < chess_pieces_id_seq db"
    by (simp_all add: db_wf_def)
  obtain c where c: "filter (\<lambda>c. c_id c = uuid_in ident) (customizations db) = [c]"
    and con: "connected db" and v: "isValidUUID ident"
    using exists_True_row [OF ex dist] by blast
  have "c \<in> set (filter (\<lambda>c. c_id c = uuid_in ident) (customizations db))"
    by (simp add: c)
  then have cid: "c_id c = uuid_in ident" and cin: "c \<in> set (customizations db)" by simp_all
  then have idin: "uuid_in ident \<in> set (map c_id (customizations db))" by force
  let ?db2 = "db\<lparr>chess_pieces :=
      filter (\<lambda>cp. cp_customization_id cp \<noteq> uuid_in ident) (chess_pieces db)\<rparr>"
  have del: "delete_chess_pieces db ident = Inr ?db2"
    using con by (simp add: delete_chess_pieces_def)
  have "\<exists>rows. insert_each ?db2 ident ps =
             Inr (?db2\<lparr>chess_pieces := chess_pieces ?db2 @ rows,
                      chess_pieces_id_seq := chess_pieces_id_seq ?db2 + length ps\<rparr>)
           \<and> map piece_of_row rows = ps
           \<and> map cp_id rows = [chess_pieces_id_seq ?db2 ..< chess_pieces_id_seq ?db2 + length ps]
           \<and> (\<forall>r \<in> set rows. cp_customization_id r = uuid_in ident)"
    using con ok seq idin nn room by (intro insert_each_ok) auto
  then obtain rows where ins: "insert_each ?db2 ident ps =
             Inr (?db2\<lparr>chess_pieces := chess_pieces ?db2 @ rows,
                      chess_pieces_id_seq := chess_pieces_id_seq ?db2 + length ps\<rparr>)"
      and pr: "map piece_of_row rows = ps"
      and ids: "map cp_id rows = [chess_pieces_id_seq db ..< chess_pieces_id_seq db + length ps]"
      and key: "\<forall>r \<in> set rows. cp_customization_id r = uuid_in ident"
    by auto
  let ?db3 = "db\<lparr>chess_pieces :=
                  filter (\<lambda>cp. cp_customization_id cp \<noteq> uuid_in ident) (chess_pieces db) @ rows,
                chess_pieces_id_seq := chess_pieces_id_seq db + length ps\<rparr>"
  have ins': "insert_each ?db2 ident ps = Inr ?db3" using ins by simp
  have mine: "filter (\<lambda>cp. cp_customization_id cp = c_id c) (chess_pieces ?db3) = rows"
    using key by (simp add: cid filter_empty_conv filter_id_conv)
  have sorted: "sort_key cp_id rows = rows"
    by (rule sort_key_id_if_sorted) (simp add: ids)
  have fields: "\<forall>cp \<in> set (chess_pieces ?db3). cp_customization_id cp = c_id c \<longrightarrow>
           cp_type cp \<noteq> [] \<and> cp_color cp \<noteq> [] \<and> cp_svg_data cp \<noteq> []"
  proof (intro ballI impI)
    fix cp assume "cp \<in> set (chess_pieces ?db3)" and "cp_customization_id cp = c_id c"
    then have "cp \<in> set rows" by (auto simp: cid)
    then have "piece_of_row cp \<in> set ps" using pr by force
    with ok have "piece_ok (piece_of_row cp)" by blast
    then show "cp_type cp \<noteq> [] \<and> cp_color cp \<noteq> [] \<and> cp_svg_data cp \<noteq> []"
      using validTypes_length validColors_length
      by (auto simp: piece_ok_def piece_of_row_def)
  qed
  have con3: "connected ?db3" using con by simp
  have c3: "filter (\<lambda>c. c_id c = uuid_in ident) (customizations ?db3) = [c]" using c by simp
  have get: "getById ?db3 ident = Inr (Some (customization_of c ps))"
    by (simp only: getById_found [OF con3 v c3 fields] mine sorted pr)
  have upd: "update db now ident
           \<lparr>upd_name = None, upd_description = None, upd_boardSvg = None, upd_pieces = Some ps\<rparr>
         = Inr (Some (customization_of c ps), ?db3)"
    using v con
    by (simp add: update_def select_customization_def c updateFields_def del ins' get)
  from c upd get pr ids key show ?thesis by blast
qed

lemma validateUpdate_pieces_only_D:
  assumes "validateUpdateCustomization (JObj [(''pieces'', JArr ps)])
             = Inr \<lparr>isValid = True, errors = []\<rparr>"
  shows "ps \<noteq> []" and "validate_each_piece ps 0 = Inr []"
proof -
  obtain es where es: "validate_each_piece ps 0 = Inr es"
    using validate_each_piece_total by blast
  have v: "validateUpdateCustomization (JObj [(''pieces'', JArr ps)]) =
      (if ps = []
       then Inr \<lparr>isValid = False,
                 errors = [''At least one chess piece is required if pieces array is provided'']\<rparr>
       else Inr \<lparr>isValid = (es = []), errors = es\<rparr>)"
    by (simp add: validateUpdateCustomization_def no_field_errors_def hasValidField_def
        update_name_errors_def description_errors_def boardSvg_errors_def
        update_pieces_errors_def es)
  from assms show "ps \<noteq> []" unfolding v by (auto split: if_splits)
  with assms have "es = []" unfolding v by simp
  with es show "validate_each_piece ps 0 = Inr []" by simp
qed

lemma as_update_request_pieces_only:
  "as_update_request (JObj [(''pieces'', JArr ps)]) =
     \<lparr>upd_name = None, upd_description = None, upd_boardSvg = None,
      upd_pieces = Some (map as_piece ps)\<rparr>"
  by (simp add: as_update_request_def field_def)


lemma example_db_wf: "db_wf example_db"
  by (simp add: db_wf_def example_db_def)

lemma two_pieces_valid:
  "validateUpdateCustomization (JObj [(''pieces'', JArr two_pieces)])
     = Inr \<lparr>isValid = True, errors = []\<rparr>"
  by code_simp


lemma exists_True_connected:
  assumes "exists db ident = Inr True"
  shows "connected db" and "filter (\<lambda>c. c_id c = uuid_in ident) (customizations db) \<noteq> []"
proof -
  have v: "isValidUUID ident" using exists_True_D(1) [OF assms] .
  show con: "connected db"
    using assms v by (cases "connected db")
      (simp_all add: exists_def select_customization_def rethrow_def)
  show "filter (\<lambda>c. c_id c = uuid_in ident) (customizations db) \<noteq> []"
    using assms v con by (simp add: exists_def select_customization_def)
qed

lemma insert_chess_piece_nul:
  assumes "connected db" and "no_nul t" and "no_nul c" and "\<not> no_nul d"
  shows "insert_chess_piece db k t c d = Inl Character_not_in_repertoire"
  using assms by (simp add: insert_chess_piece_def text_in_def no_nul_def)

lemma update_pieces_nul:
  assumes "exists db ident = Inr True"
    and "no_nul (type p)" and "no_nul (color p)" and "\<not> no_nul (svgData p)"
  shows "update db now ident
           \<lparr>upd_name = None, upd_description = None, upd_boardSvg = None,
            upd_pieces = Some (p # ps)\<rparr>
         = Inl (new_Error (''Failed to update chess customization: ''
                  @ sql_message Character_not_in_repertoire))"
proof -
  have v: "isValidUUID ident" using exists_True_D(1) [OF assms(1)] .
  note con = exists_True_connected [OF assms(1)]
  let ?db2 = "db\<lparr>chess_pieces :=
      filter (\<lambda>cp. cp_customization_id cp \<noteq> uuid_in ident) (chess_pieces db)\<rparr>"
  have "connected ?db2" using con(1) by simp
  from insert_chess_piece_nul [OF this assms(2,3,4)]
  have ins: "insert_chess_piece ?db2 ident (type p) (color p) (svgData p)
      = Inl Character_not_in_repertoire" .
  show ?thesis
    using v con
    by (simp add: update_def select_customization_def updateFields_def delete_chess_pieces_def
        ins rethrow_def pg_error_def)
qed

lemma nul_piece_valid:
  "validateUpdateCustomization (JObj [(''pieces'', JArr [nul_piece])])
     = Inr \<lparr>isValid = True, errors = []\<rparr>"
  by code_simp


lemma nullable_text_in_or_null:
  assumes "\<forall>s. d = Some s \<longrightarrow> no_nul s"
  shows "nullable_text_in (or_null d) = Inr (or_null d)"
  using assms by (cases d) (simp_all add: text_in_no_nul)

lemma create_ok:
  assumes wf: "db_wf db" and con: "connected db" and v: "isValidUUID g"
    and canon: "uuid_in g = g" and fresh: "g \<notin> set (map c_id (customizations db))"
    and len: "length (req_name data) \<le> 255" and ok: "\<forall>p \<in> set (req_pieces data). piece_ok p"
    and nn: "no_nul (req_name data)" "\<forall>s. req_description data = Some s \<longrightarrow> no_nul s"
      "\<forall>s. req_boardSvg data = Some s \<longrightarrow> no_nul s"
      "\<forall>p \<in> set (req_pieces data). no_nul (svgData p)"
    and room: "chess_pieces_id_seq db + length (req_pieces data) \<le> Suc serial_max"
  shows "\<exists>rows.
      create db g now data =
        Inr (customization_of
               \<lparr>c_id = g, c_name = req_name data, c_description = or_null (req_description data),
                c_board_svg = or_null (req_boardSvg data), c_created_at = now, c_updated_at = now\<rparr>
               (req_pieces data),
             db\<lparr>customizations := customizations db @
                    [\<lparr>c_id = g, c_name = req_name data, c_description = or_null (req_description data),
                      c_board_svg = or_null (req_boardSvg data), c_created_at = now,
                      c_updated_at = now\<rparr>],
                chess_pieces := chess_pieces db @ rows,
                chess_pieces_id_seq := chess_pieces_id_seq db + length (req_pieces data)\<rparr>)
      \<and> getById
           (db\<lparr>customizations := customizations db @
                    [\<lparr>c_id = g, c_name = req_name data, c_description = or_null (req_description data),
                      c_board_svg = or_null (req_boardSvg data), c_created_at = now,
                      c_updated_at = now\<rparr>],
                chess_pieces := chess_pieces db @ rows,
                chess_pieces_id_seq := chess_pieces_id_seq db + length (req_pieces data)\<rparr>) g
         = Inr (Some (customization_of
               \<lparr>c_id = g, c_name = req_name data, c_description = or_null (req_description data),
                c_board_svg = or_null (req_boardSvg data), c_created_at = now, c_updated_at = now\<rparr>
               (req_pieces data)))"
proof -
  let ?row = "\<lparr>c_id = g, c_name = req_name data, c_description = or_null (req_description data),
                c_board_svg = or_null (req_boardSvg data), c_created_at = now, c_updated_at = now\<rparr>"
  let ?db1 = "db\<lparr>customizations := customizations db @ [?row]\<rparr>"
  from wf have seq: "\<forall>cp \<in> set (chess_pieces db). cp_id cp < chess_pieces_id_seq db"
    and fk: "\<forall>cp \<in> set (chess_pieces db).
               cp_customization_id cp \<in> set (map c_id (customizations db))"
    by (simp_all add: db_wf_def)
  have ins: "insert_customization db g now (req_name data) (or_null (req_description data))
      (or_null (req_boardSvg data)) = Inr (?row, ?db1)"
    using con fresh
    by (simp add: insert_customization_def varchar_fits [OF len] Let_def
        text_in_no_nul [OF nn(1)] nullable_text_in_or_null [OF nn(2)]
        nullable_text_in_or_null [OF nn(3)])
  have "\<exists>rows. insert_each ?db1 g (req_pieces data) =
             Inr (?db1\<lparr>chess_pieces := chess_pieces ?db1 @ rows,
                      chess_pieces_id_seq := chess_pieces_id_seq ?db1 + length (req_pieces data)\<rparr>)
           \<and> map piece_of_row rows = req_pieces data
           \<and> map cp_id rows =
               [chess_pieces_id_seq ?db1 ..< chess_pieces_id_seq ?db1 + length (req_pieces data)]
           \<and> (\<forall>r \<in> set rows. cp_customization_id r = uuid_in g)"
    using con ok seq nn(4) room by (intro insert_each_ok) (simp_all add: canon)
  then obtain rows where each: "insert_each ?db1 g (req_pieces data) =
             Inr (?db1\<lparr>chess_pieces := chess_pieces ?db1 @ rows,
                      chess_pieces_id_seq := chess_pieces_id_seq ?db1 + length (req_pieces data)\<rparr>)"
      and pr: "map piece_of_row rows = req_pieces data"
      and ids: "map cp_id rows =
          [chess_pieces_id_seq db ..< chess_pieces_id_seq db + length (req_pieces data)]"
      and key: "\<forall>r \<in> set rows. cp_customization_id r = g"
    by (auto simp: canon)
  let ?db3 = "db\<lparr>customizations := customizations db @ [?row],
                chess_pieces := chess_pieces db @ rows,
                chess_pieces_id_seq := chess_pieces_id_seq db + length (req_pieces data)\<rparr>"
  have each': "insert_each ?db1 g (req_pieces data) = Inr ?db3" using each by simp
  have cr: "create db g now data = Inr (customization_of ?row (req_pieces data), ?db3)"
    using con
    by (simp add: create_def ins insert_pieces_insert_each each' customization_of_def)
  have old: "\<forall>cp \<in> set (chess_pieces db). cp_customization_id cp \<noteq> g"
    using fk fresh by auto
  have con3: "connected ?db3" using con by simp
  have c3: "filter (\<lambda>c. c_id c = uuid_in g) (customizations ?db3) = [?row]"
    using fresh by (auto simp: canon filter_empty_conv)
  have mine: "filter (\<lambda>cp. cp_customization_id cp = c_id ?row) (chess_pieces ?db3) = rows"
    using key old by (simp add: filter_empty_conv filter_id_conv)
  have sorted: "sort_key cp_id rows = rows"
    by (rule sort_key_id_if_sorted) (simp add: ids)
  have fields: "\<forall>cp \<in> set (chess_pieces ?db3). cp_customization_id cp = c_id ?row \<longrightarrow>
           cp_type cp \<noteq> [] \<and> cp_color cp \<noteq> [] \<and> cp_svg_data cp \<noteq> []"
  proof (intro ballI impI)
    fix cp assume "cp \<in> set (chess_pieces ?db3)" and "cp_customization_id cp = c_id ?row"
    with old have "cp \<in> set rows" by auto
    then have "piece_of_row cp \<in> set (map piece_of_row rows)" by simp
    then have "piece_of_row cp \<in> set (req_pieces data)" by (simp only: pr)
    with ok have "piece_ok (piece_of_row cp)" by blast
    then show "cp_type cp \<noteq> [] \<and> cp_color cp \<noteq> [] \<and> cp_svg_data cp \<noteq> []"
      using validTypes_length validColors_length
      by (auto simp: piece_ok_def piece_of_row_def)
  qed
  have get: "getById ?db3 g = Inr (Some (customization_of ?row (req_pieces data)))"
    by (simp only: getById_found [OF con3 v c3 fields] mine sorted pr)
  from cr get show ?thesis by (intro exI [where x = rows] conjI)
qed

lemma create_pieces_errors_nil_D:
  assumes "getp data ''pieces'' = Inr p" and "create_pieces_errors data = Inr []"
  shows "\<exists>ps. p = JArr ps \<and> ps \<noteq> [] \<and> validate_each_piece ps 0 = Inr []"
  using assms by (cases p) (auto simp: create_pieces_errors_def split: if_splits)

lemma boardSvg_errors_nil_D:
  assumes "getp data ''boardSvg'' = Inr b" and "boardSvg_errors data = Inr []"
  shows "b = JUndefined \<or> (\<exists>s. b = JStr s \<and> s \<noteq> [])"
  using assms
  by (cases b)
     (auto simp: boardSvg_errors_def base64_field_errors_def isValidBase64_def
        isValidSvgSize_def split: if_splits)

lemma description_errors_nil_D:
  assumes "getp data ''description'' = Inr d" and "description_errors data = Inr []"
  shows "d = JUndefined \<or> (\<exists>s. d = JStr s)"
  using assms by (cases d) (auto simp: description_errors_def split: if_splits)

lemma create_name_errors_nil_D:
  assumes "getp data ''name'' = Inr n" and "create_name_errors data = Inr []"
  shows "\<exists>s. n = JStr s \<and> trim s \<noteq> []"
  using assms by (cases n) (auto simp: create_name_errors_def split: if_splits)

lemma validateCreate_valid_D:
  assumes "validateCreateCustomization payload = Inr \<lparr>isValid = True, errors = []\<rparr>"
  shows "\<forall>p \<in> set (req_pieces (as_create_request payload)). piece_ok p"
    and "req_pieces (as_create_request payload) \<noteq> []"
    and "req_boardSvg (as_create_request payload) \<noteq> Some []"
    and "trim (req_name (as_create_request payload)) \<noteq> []"
proof -
  have obj: "\<not> (\<not> truthy payload \<or> typeof payload \<noteq> ''object'')"
  proof
    assume "\<not> truthy payload \<or> typeof payload \<noteq> ''object''"
    then have "validateCreateCustomization payload
        = Inr \<lparr>isValid = False, errors = [''Request body is required'']\<rparr>"
      by (simp add: validateCreateCustomization_def)
    with assms show False by simp
  qed
  then have nn: "payload \<noteq> JUndefined" "payload \<noteq> JNull" by auto
  obtain n where n: "getp payload ''name'' = Inr n" using getp_total [OF nn] by blast
  obtain p where p: "getp payload ''pieces'' = Inr p" using getp_total [OF nn] by blast
  obtain b where b: "getp payload ''boardSvg'' = Inr b" using getp_total [OF nn] by blast
  obtain e1 where e1: "create_name_errors payload = Inr e1"
    using create_name_errors_total [OF n] by blast
  obtain e2 where e2: "create_pieces_errors payload = Inr e2"
    using create_pieces_errors_total [OF p] by blast
  obtain e3 where e3: "description_errors payload = Inr e3"
    using getp_total [OF nn] description_errors_total by blast
  obtain e4 where e4: "boardSvg_errors payload = Inr e4"
    using boardSvg_errors_total [OF b] by blast
  have "validateCreateCustomization payload
      = Inr \<lparr>isValid = (length (e1 @ e2 @ e3 @ e4) = 0), errors = e1 @ e2 @ e3 @ e4\<rparr>"
    unfolding validateCreateCustomization_def Let_def using obj
    by (simp only: if_False e1 e2 e3 e4 and_then_Inr)
  with assms have nil: "e1 = []" "e2 = []" "e4 = []" by simp_all
  obtain ps where ps: "p = JArr ps" "ps \<noteq> []" "validate_each_piece ps 0 = Inr []"
    using create_pieces_errors_nil_D [OF p] e2 nil by blast
  have pieces: "req_pieces (as_create_request payload) = map as_piece ps"
    by (simp add: as_create_request_def field_getp [OF p] ps)
  show "\<forall>p \<in> set (req_pieces (as_create_request payload)). piece_ok p"
    using validate_each_piece_ok [OF ps(3)] by (simp add: pieces)
  show "req_pieces (as_create_request payload) \<noteq> []"
    using ps(2) by (simp add: pieces)
  show "req_boardSvg (as_create_request payload) \<noteq> Some []"
    using boardSvg_errors_nil_D [OF b] e4 nil
    by (auto simp: as_create_request_def field_getp [OF b])
  show "trim (req_name (as_create_request payload)) \<noteq> []"
    using create_name_errors_nil_D [OF n] e1 nil
    by (auto simp: as_create_request_def field_getp [OF n])
qed


lemma body_empty_description_valid:
  "validateCreateCustomization body_empty_description = Inr \<lparr>isValid = True, errors = []\<rparr>"
  by code_simp

lemma empty_db_wf: "db_wf empty_db"
  by (simp add: db_wf_def empty_db_def)

lemma example_id_valid: "isValidUUID example_id"
  by code_simp

lemma example_id_canonical: "uuid_in example_id = example_id"
  by code_simp

lemma body_empty_description_request:
  "as_create_request body_empty_description =
     \<lparr>req_name = ''Test Chess Set'', req_description = Some [], req_boardSvg = None,
      req_pieces = [\<lparr>type = ''pawn'', color = ''white'', svgData = ''AAAA''\<rparr>]\<rparr>"
  by (simp add: as_create_request_def body_empty_description_def field_def as_piece_def)


lemma create_example:
  "create empty_db example_id 1 (as_create_request body_empty_description)
     = Inr (example_customization, example_db)"
  by (simp add: body_empty_description_request create_def empty_db_def insert_customization_def
      text_in_def varchar_def insert_chess_piece_def serial_max_def uuid_in_def hex_lower_def
      example_id_def example_customization_def example_db_def Let_def)

lemma getById_example: "getById example_db example_id = Inr (Some example_customization)"
proof -
  have "getById example_db example_id =
      Inr (Some (customization_of
        \<lparr>c_id = example_id, c_name = ''Test Chess Set'', c_description = Null,
         c_board_svg = Null, c_created_at = 1, c_updated_at = 1\<rparr>
        (map piece_of_row
          (sort_key cp_id
            (filter (\<lambda>cp. cp_customization_id cp = c_id
                \<lparr>c_id = example_id, c_name = ''Test Chess Set'', c_description = Null,
                 c_board_svg = Null, c_created_at = 1, c_updated_at = 1\<rparr>)
              (chess_pieces example_db))))))"
    by (rule getById_found)
       (simp_all add: example_db_def example_id_valid example_id_canonical)
  then show ?thesis
    by (simp add: example_db_def customization_of_def piece_of_row_def example_customization_def)
qed


lemma and_then_eq_Inr: "and_then r f = Inr y \<longleftrightarrow> (\<exists>x. r = Inr x \<and> f x = Inr y)"
  by (cases r) simp_all

lemma rethrow_eq_Inr: "rethrow what r = Inr y \<longleftrightarrow> r = Inr y"
  by (cases r) (simp_all add: rethrow_def)

lemma query_eq_Inr: "query r = Inr y \<longleftrightarrow> r = Inr y"
  by (cases r) simp_all

lemma insert_chess_piece_customizations:
  "insert_chess_piece db a b c d = Inr db1 \<Longrightarrow> customizations db1 = customizations db"
  by (auto simp: insert_chess_piece_def and_then_eq_Inr Let_def split: if_splits)

lemma insert_each_customizations:
  "insert_each db k ps = Inr db' \<Longrightarrow> customizations db' = customizations db"
proof (induction ps arbitrary: db)
  case Nil
  then show ?case by simp
next
  case (Cons p ps)
  from Cons.prems obtain db1
    where 1: "insert_chess_piece db k (type p) (color p) (svgData p) = Inr db1"
      and 2: "insert_each db1 k ps = Inr db'"
    by (auto simp: and_then_eq_Inr query_eq_Inr)
  from Cons.IH [OF 2] insert_chess_piece_customizations [OF 1] show ?case by simp
qed

lemma insert_customization_Inr_D:
  assumes "insert_customization db g now a b c = Inr (row, db1)"
  shows "c_id row = g" and "c_description row = b" and "c_board_svg row = c"
    and "customizations db1 = customizations db @ [row]"
    and "g \<notin> set (map c_id (customizations db))"
  using assms
  by (auto simp: insert_customization_def and_then_eq_Inr text_in_eq_Inr
      nullable_text_in_eq_Inr Let_def split: if_splits)

lemma create_Inr_D:
  assumes "create db g now data = Inr (c, db')"
  obtains row where "customizations db' = customizations db @ [row]"
    and "c_id row = g" and "id' c = g"
    and "c_description row = or_null (req_description data)"
    and "description c = or_null (req_description data)"
    and "c_board_svg row = or_null (req_boardSvg data)"
    and "boardSvg c = or_null (req_boardSvg data)"
    and "g \<notin> set (map c_id (customizations db))"
proof -
  from assms have con: "connected db"
    by (cases "connected db") (simp_all add: create_def)
  with assms obtain row db1 collected
    where ins: "insert_customization db g now (req_name data) (or_null (req_description data))
                  (or_null (req_boardSvg data)) = Inr (row, db1)"
      and pcs: "insert_pieces db1 (c_id row) (req_pieces data) [] = Inr (collected, db')"
      and c: "c = \<lparr>id' = c_id row, name = c_name row, description = c_description row,
                   boardSvg = c_board_svg row, pieces = collected,
                   createdAt = c_created_at row, updatedAt = c_updated_at row\<rparr>"
    by (auto simp: create_def rethrow_eq_Inr and_then_eq_Inr query_eq_Inr)
  from pcs have "insert_each db1 (c_id row) (req_pieces data) = Inr db'"
    by (auto simp: insert_pieces_insert_each and_then_eq_Inr)
  then have "customizations db' = customizations db1"
    by (rule insert_each_customizations)
  with insert_customization_Inr_D [OF ins] c that show thesis by simp
qed

text \<open>
  C10. Validation accepts the empty string as description. Whenever \<^verbatim>\<open>create\<close>
  succeeds on a request whose description is the empty string, the customization it
  returns has description null, and so has the row it has persisted under the returned
  identifier; the same holds of \<^verbatim>\<open>boardSvg\<close>.
\<close>

theorem create_coerces_empty_string_to_null:
  assumes "create db g now data = Inr (c, db')"
  shows "(req_description data = Some [] \<longrightarrow>
            description c = Null
            \<and> (\<forall>row \<in> set (customizations db'). c_id row = id' c \<longrightarrow> c_description row = Null))
         \<and> (req_boardSvg data = Some [] \<longrightarrow>
            boardSvg c = Null
            \<and> (\<forall>row \<in> set (customizations db'). c_id row = id' c \<longrightarrow> c_board_svg row = Null))
         \<and> (\<exists>row \<in> set (customizations db'). c_id row = id' c)
         \<and> (map_of kvs ''description'' = Some (JStr []) \<longrightarrow>
              description_errors (JObj kvs) = Inr [])"
proof -
  from assms obtain row where rows: "customizations db' = customizations db @ [row]"
    and ids: "c_id row = g" "id' c = g"
    and d: "c_description row = or_null (req_description data)"
       "description c = or_null (req_description data)"
    and b: "c_board_svg row = or_null (req_boardSvg data)"
       "boardSvg c = or_null (req_boardSvg data)"
    and fresh: "g \<notin> set (map c_id (customizations db))"
    by (rule create_Inr_D)
  have only: "r = row" if "r \<in> set (customizations db')" "c_id r = id' c" for r
    using that fresh by (auto simp: rows ids)
  have "description c = Null
      \<and> (\<forall>r \<in> set (customizations db'). c_id r = id' c \<longrightarrow> c_description r = Null)"
    if "req_description data = Some []"
    using that only d by auto
  moreover have "boardSvg c = Null
      \<and> (\<forall>r \<in> set (customizations db'). c_id r = id' c \<longrightarrow> c_board_svg r = Null)"
    if "req_boardSvg data = Some []"
    using that only b by auto
  moreover have "\<exists>r \<in> set (customizations db'). c_id r = id' c"
    by (auto simp: rows ids)
  moreover have "description_errors (JObj kvs) = Inr []"
    if "map_of kvs ''description'' = Some (JStr [])"
    using that by (simp add: description_errors_def)
  ultimately show ?thesis by blast
qed

theorem create_coerces_empty_string_to_null_witness:
  "create empty_db example_id 1 (as_create_request body_empty_description)
     = Inr (example_customization, example_db)
   \<and> req_description (as_create_request body_empty_description) = Some []
   \<and> description example_customization = Null
   \<and> map c_description (customizations example_db) = [Null]
   \<and> description_errors body_empty_description = Inr []"
  using create_coerces_empty_string_to_null [OF create_example,
      of "[(''name'', JStr ''Test Chess Set''), (''description'', JStr []),
           (''pieces'', JArr [JObj [(''type'', JStr ''pawn''), (''color'', JStr ''white''),
                                    (''svgData'', JStr ''AAAA'')]])]"]
    create_example
  by (simp add: as_create_request_def body_empty_description_def field_def example_db_def)

section \<open>The states the schema allows are closed under the storage operations\<close>

text \<open>The store before the first request satisfies \<open>db_wf\<close> (lemma \<open>empty_db_wf\<close>), and
  every successful \<^verbatim>\<open>create\<close>, \<^verbatim>\<open>update\<close> and \<^verbatim>\<open>delete\<close> leaves it satisfied; a failed
  one is rolled back, and the reads do not change the store. So \<open>db_wf\<close> holds of every
  state that the storage class can reach.\<close>

lemma insert_chess_piece_wf:
  assumes "db_wf db" and "insert_chess_piece db a b c d = Inr db1"
  shows "db_wf db1"
  using assms
  by (auto simp: insert_chess_piece_def and_then_eq_Inr Let_def db_wf_def less_Suc_eq
      split: if_splits)

lemma insert_each_wf:
  "db_wf db \<Longrightarrow> insert_each db k ps = Inr db' \<Longrightarrow> db_wf db'"
proof (induction ps arbitrary: db)
  case Nil
  then show ?case by simp
next
  case (Cons p ps)
  from Cons.prems(2) obtain db1
    where 1: "insert_chess_piece db k (type p) (color p) (svgData p) = Inr db1"
      and 2: "insert_each db1 k ps = Inr db'"
    by (auto simp: and_then_eq_Inr query_eq_Inr)
  from insert_chess_piece_wf [OF Cons.prems(1) 1] 2 show ?case by (rule Cons.IH)
qed

lemma insert_customization_wf:
  assumes "db_wf db" and "insert_customization db g now a b c = Inr (row, db1)"
  shows "db_wf db1"
  using assms
  by (auto simp: insert_customization_def and_then_eq_Inr Let_def db_wf_def split: if_splits)

lemma create_preserves_wf:
  assumes "db_wf db" and "create db g now data = Inr (c, db')"
  shows "db_wf db'"
proof -
  from assms(2) have con: "connected db"
    by (cases "connected db") (simp_all add: create_def)
  with assms(2) obtain row db1 collected
    where ins: "insert_customization db g now (req_name data) (or_null (req_description data))
                  (or_null (req_boardSvg data)) = Inr (row, db1)"
      and pcs: "insert_pieces db1 (c_id row) (req_pieces data) [] = Inr (collected, db')"
    by (auto simp: create_def rethrow_eq_Inr and_then_eq_Inr query_eq_Inr)
  from pcs have "insert_each db1 (c_id row) (req_pieces data) = Inr db'"
    by (auto simp: insert_pieces_insert_each and_then_eq_Inr)
  with insert_customization_wf [OF assms(1) ins] show ?thesis by (rule insert_each_wf)
qed

lemma assign_c_id: "assign row a = Inr row' \<Longrightarrow> c_id row' = c_id row"
  by (cases a) (auto simp: and_then_eq_Inr)

lemma assign_all_c_id: "assign_all row sets = Inr row' \<Longrightarrow> c_id row' = c_id row"
proof (induction sets arbitrary: row)
  case Nil
  then show ?case by simp
next
  case (Cons a sets)
  then show ?case by (auto simp: and_then_eq_Inr dest: assign_c_id)
qed

lemma update_where_c_id:
  "update_where rows key sets now = Inr rows' \<Longrightarrow> map c_id rows' = map c_id rows"
proof (induction rows arbitrary: rows')
  case Nil
  then show ?case by simp
next
  case (Cons row rows)
  then show ?case
    by (auto simp: and_then_eq_Inr split: if_splits dest: assign_all_c_id)
qed

lemma update_customizations_wf:
  assumes "db_wf db" and "update_customizations db now sets k = Inr db1"
  shows "db_wf db1"
proof -
  from assms(2) obtain rows
    where r: "update_where (customizations db) (uuid_in k) sets now = Inr rows"
      and db1: "db1 = db\<lparr>customizations := rows\<rparr>"
    by (auto simp: update_customizations_def and_then_eq_Inr split: if_splits)
  have m: "map c_id rows = map c_id (customizations db)"
    by (rule update_where_c_id [OF r])
  from assms(1) show ?thesis by (simp add: db_wf_def db1 m)
qed

lemma delete_chess_pieces_wf:
  assumes "db_wf db" and "delete_chess_pieces db k = Inr db1"
  shows "db_wf db1"
  using assms
  by (auto simp: delete_chess_pieces_def db_wf_def distinct_map_filter split: if_splits)

lemma update_preserves_wf:
  assumes "db_wf db" and "update db now ident data = Inr (r, db')"
  shows "db_wf db'"
proof (cases "isValidUUID ident")
  case False
  with assms show ?thesis by (simp add: update_def)
next
  case True
  with assms(2) have con: "connected db"
    by (cases "connected db") (simp_all add: update_def)
  from assms(2) True con obtain existsResult
    where sel: "select_customization db ident = Inr existsResult"
      and rest: "(if length existsResult = 0 then Inr (None, db)
           else
             and_then (if length (updateFields data) > 0
                       then query (update_customizations db now (updateFields data) ident)
                       else Inr db) (\<lambda>db1.
             and_then (case upd_pieces data of
                         None \<Rightarrow> Inr db1
                       | Some ps \<Rightarrow>
                           and_then (query (delete_chess_pieces db1 ident)) (\<lambda>db2.
                             insert_each db2 ident ps)) (\<lambda>db3.
             and_then (getById db3 ident) (\<lambda>c. Inr (c, db3))))) = Inr (r, db')"
    by (auto simp: update_def rethrow_eq_Inr and_then_eq_Inr query_eq_Inr)
  show ?thesis
  proof (cases "length existsResult = 0")
    case True
    with rest assms(1) show ?thesis by simp
  next
    case False
    with rest obtain db1 where
      1: "(if length (updateFields data) > 0
           then query (update_customizations db now (updateFields data) ident)
           else Inr db) = Inr db1"
      and 2: "(case upd_pieces data of
                 None \<Rightarrow> Inr db1
               | Some ps \<Rightarrow>
                   and_then (query (delete_chess_pieces db1 ident)) (\<lambda>db2.
                     insert_each db2 ident ps)) = Inr db'"
      by (auto simp: and_then_eq_Inr)
    from 1 assms(1) have wf1: "db_wf db1"
      by (auto simp: query_eq_Inr split: if_splits intro: update_customizations_wf)
    from 2 wf1 show ?thesis
      by (auto simp: and_then_eq_Inr query_eq_Inr split: option.splits
          intro: insert_each_wf delete_chess_pieces_wf)
  qed
qed

lemma foreign_key_filter:
  assumes "\<forall>cp \<in> set cps. cp_customization_id cp \<in> set (map c_id cs)"
  shows "\<forall>cp \<in> set (filter (\<lambda>cp. cp_customization_id cp \<noteq> k) cps).
           cp_customization_id cp \<in> set (map c_id (filter (\<lambda>c. c_id c \<noteq> k) cs))"
proof (intro ballI)
  fix cp assume "cp \<in> set (filter (\<lambda>cp. cp_customization_id cp \<noteq> k) cps)"
  then have cp: "cp \<in> set cps" and ne: "cp_customization_id cp \<noteq> k" by simp_all
  from assms cp obtain c where c: "c \<in> set cs" "c_id c = cp_customization_id cp" by force
  with ne have "c \<in> set (filter (\<lambda>c. c_id c \<noteq> k) cs)" by simp
  with c(2) show "cp_customization_id cp \<in> set (map c_id (filter (\<lambda>c. c_id c \<noteq> k) cs))"
    by force
qed

lemma delete_preserves_wf:
  assumes "db_wf db" and "delete db ident = Inr (r, db')"
  shows "db_wf db'"
proof (cases "isValidUUID ident")
  case False
  with assms show ?thesis by (simp add: delete_def)
next
  case True
  with assms(2) obtain n where "delete_customization db ident = Inr (n, db')"
    by (auto simp: delete_def rethrow_eq_Inr and_then_eq_Inr query_eq_Inr)
  then have db': "db' = db\<lparr>customizations :=
        filter (\<lambda>c. c_id c \<noteq> uuid_in ident) (customizations db),
      chess_pieces :=
        filter (\<lambda>cp. cp_customization_id cp \<noteq> uuid_in ident) (chess_pieces db)\<rparr>"
    by (auto simp: delete_customization_def split: if_splits)
  from assms(1) have fk: "\<forall>cp \<in> set (chess_pieces db).
      cp_customization_id cp \<in> set (map c_id (customizations db))"
    by (simp add: db_wf_def)
  from assms(1) foreign_key_filter [OF fk, of "uuid_in ident"] show ?thesis
    by (simp add: db_wf_def db' distinct_map_filter)
qed

section \<open>What the store refuses\<close>

text \<open>Validation does not look for the character with code 0, nor at the length of
  the name; the store refuses both, and \<^verbatim>\<open>create\<close> throws.\<close>

lemma create_nul_name:
  assumes "connected db" and "\<not> no_nul (req_name data)"
  shows "create db g now data =
           Inl (new_Error (''Failed to create chess customization: ''
                  @ sql_message Character_not_in_repertoire))"
  using assms
  by (simp add: create_def insert_customization_def text_in_def no_nul_def rethrow_def
      pg_error_def)

lemma insert_chess_piece_sequence_limit:
  assumes "connected db" and "no_nul t" and "no_nul c" and "no_nul d"
    and "serial_max < chess_pieces_id_seq db"
  shows "insert_chess_piece db k t c d = Inl Sequence_generator_limit_exceeded"
  using assms by (simp add: insert_chess_piece_def text_in_def no_nul_def)

end
